theory Spec2Isabelle
  imports Main "HOL-Library.Multiset"
begin

section \<open>Reconciling Coverity findings with merge-request discussions\<close>

text \<open>
  The development embeds the reconciliation program of \<^verbatim>\<open>src/index.ts\<close>
  (the second program of the file, \<^verbatim>\<open>coverity-gitlab\<close>): its start-up checks, the
  bulk classification lookup, the loop over the findings that matches each issue against
  the pool of existing discussions, and the final sweep over the discussions left in the
  pool.  Everything the program obtains from outside (environment, command line, files,
  the GitLab and Coverity services) is an explicit input; everything it does to the outside
  (service calls, log lines, the process exit) is an explicit output.
\<close>

subsection \<open>JavaScript primitives used by the program\<close>

text \<open>
  An environment variable or command-line option is absent (\<^verbatim>\<open>undefined\<close>) or a
  string.  In a condition, \<^verbatim>\<open>undefined\<close> and the empty string are falsy.
\<close>

definition truthy :: "string option \<Rightarrow> bool" where
  "truthy v = (case v of None \<Rightarrow> False | Some s \<Rightarrow> s \<noteq> [])"

text \<open>Interpolation into a template string: \<^verbatim>\<open>undefined\<close> prints as its name.\<close>

definition template :: "string option \<Rightarrow> string" where
  "template v = (case v of None \<Rightarrow> ''undefined'' | Some s \<Rightarrow> s)"

text \<open>\<^verbatim>\<open>s.startsWith(p)\<close> and \<^verbatim>\<open>s.includes(p)\<close>.\<close>

fun startsWith :: "string \<Rightarrow> string \<Rightarrow> bool" where
  "startsWith s [] = True"
| "startsWith [] (p # ps) = False"
| "startsWith (c # cs) (p # ps) = (c = p \<and> startsWith cs ps)"

fun str_includes :: "string \<Rightarrow> string \<Rightarrow> bool" where
  "str_includes [] p = (p = [])"
| "str_includes (c # cs) p = (startsWith (c # cs) p \<or> str_includes cs p)"

text \<open>Decimal rendering of an integral number, as \<^verbatim>\<open>String(n)\<close> gives it.\<close>

definition digit_char :: "nat \<Rightarrow> char" where
  "digit_char d = char_of (48 + d)"

fun decimal :: "nat \<Rightarrow> string" where
  "decimal n = (if n < 10 then [digit_char n] else decimal (n div 10) @ [digit_char (n mod 10)])"

definition number_string :: "int \<Rightarrow> string" where
  "number_string i = (if i < 0 then CHR ''-'' # decimal (nat (- i)) else decimal (nat i))"

text \<open>
  \<^verbatim>\<open>parseInt(s, 10)\<close>: leading white space is skipped, an optional sign is read, then the
  longest run of decimal digits; with no digit the result is \<^verbatim>\<open>NaN\<close> (\<open>None\<close>).  The
  rounding of results beyond \<open>2\<^sup>5\<^sup>3\<close> to a double is not modelled.
\<close>

definition is_space :: "char \<Rightarrow> bool" where
  "is_space c = (c \<in> set [CHR '' '', CHR 0x09, CHR 0x0A, CHR 0x0B, CHR 0x0C, CHR 0x0D])"

definition is_digit :: "char \<Rightarrow> bool" where
  "is_digit c = (48 \<le> (of_char c :: nat) \<and> (of_char c :: nat) \<le> 57)"

definition digit_value :: "char \<Rightarrow> int" where
  "digit_value c = int (of_char c) - 48"

definition digits_value :: "string \<Rightarrow> int" where
  "digits_value ds = foldl (\<lambda>acc c. 10 * acc + digit_value c) 0 ds"

definition parseInt10 :: "string \<Rightarrow> int option" where
  "parseInt10 s =
     (let t = dropWhile is_space s;
          (negative, u) = (case t of
                              c # r \<Rightarrow> if c = CHR ''-'' then (True, r)
                                       else if c = CHR ''+'' then (False, r)
                                       else (False, t)
                            | [] \<Rightarrow> (False, t));
          ds = takeWhile is_digit u
      in if ds = [] then None
         else Some (if negative then - digits_value ds else digits_value ds))"


text \<open>
  \<^verbatim>\<open>key in array\<close> asks whether \<open>key\<close> names a property of the array object or of its
  prototype chain: an index below the length in canonical decimal form, \<^verbatim>\<open>length\<close>, or a
  property of \<^verbatim>\<open>Array.prototype\<close> or \<^verbatim>\<open>Object.prototype\<close> (the ECMAScript 2023
  names).  It never looks at the elements.
\<close>

definition Array_prototype_keys :: "string list" where
  "Array_prototype_keys =
     [''constructor'', ''at'', ''concat'', ''copyWithin'', ''fill'', ''find'', ''findIndex'',
      ''findLast'', ''findLastIndex'', ''lastIndexOf'', ''pop'', ''push'', ''reverse'',
      ''shift'', ''unshift'', ''slice'', ''sort'', ''splice'', ''includes'', ''indexOf'',
      ''join'', ''keys'', ''entries'', ''values'', ''forEach'', ''filter'', ''flat'',
      ''flatMap'', ''map'', ''every'', ''some'', ''reduce'', ''reduceRight'',
      ''toLocaleString'', ''toString'', ''toReversed'', ''toSorted'', ''toSpliced'', ''with'']"

definition Object_prototype_keys :: "string list" where
  "Object_prototype_keys =
     [''constructor'', ''__defineGetter__'', ''__defineSetter__'', ''hasOwnProperty'',
      ''__lookupGetter__'', ''__lookupSetter__'', ''isPrototypeOf'', ''propertyIsEnumerable'',
      ''toString'', ''valueOf'', ''__proto__'', ''toLocaleString'']"

definition js_in_array :: "string \<Rightarrow> 'a list \<Rightarrow> bool" where
  "js_in_array key arr =
     (key \<in> set (map decimal [0..<length arr]) \<or> key = ''length''
      \<or> key \<in> set Array_prototype_keys \<or> key \<in> set Object_prototype_keys)"

text \<open>
  \<^verbatim>\<open>arr.findIndex(p)\<close> calls \<open>p\<close> on the elements in ascending order and returns the
  first index where it holds, or \<open>-1\<close>.  A predicate that throws ends the search with the
  exception (\<open>Inl\<close>).
\<close>

fun findIndex :: "('a \<Rightarrow> 'e + bool) \<Rightarrow> 'a list \<Rightarrow> 'e + int" where
  "findIndex p [] = Inr (- 1)"
| "findIndex p (x # xs) =
     (case p x of
        Inl e \<Rightarrow> Inl e
      | Inr True \<Rightarrow> Inr 0
      | Inr False \<Rightarrow>
          (case findIndex p xs of
             Inl e \<Rightarrow> Inl e
           | Inr i \<Rightarrow> Inr (if i = - 1 then - 1 else i + 1)))"

text \<open>
  \<^verbatim>\<open>arr.splice(start, 1)\<close> removes at most one element at \<open>start\<close> (a negative start
  counts from the end) and returns the removed elements; the pair is the removed elements
  and the array afterwards.  Reading index 0 of the removed elements gives
  \<^verbatim>\<open>undefined\<close> when nothing was removed.
\<close>

definition splice1 :: "int \<Rightarrow> 'a list \<Rightarrow> 'a list \<times> 'a list" where
  "splice1 start xs =
     (let n = int (length xs);
          k = nat (if start < 0 then max (n + start) 0 else min start n)
      in (take 1 (drop k xs), take k xs @ drop (Suc k) xs))"

definition first_removed :: "'a list \<Rightarrow> 'a option" where
  "first_removed removed = (case removed of [] \<Rightarrow> None | x # _ \<Rightarrow> Some x)"

subsection \<open>Data model\<close>

text \<open>
  A finding of the results file.  Only these fields are read by the program itself; the
  others feed the rendering functions of the library.
\<close>

record issue =
  mergeKey :: string
  strippedMainEventFilePathname :: string
  mainEventLineNumber :: int

text \<open>The server's record of an issue, as the bulk lookup returns it.\<close>

record project_issue =
  action :: string
  classification :: string
  firstSnapshotId :: int
  lastSnapshotId :: int

text \<open>
  A merge-request discussion: its id and its notes.  Of a note the program reads the id,
  the body and, if the note is anchored to a line, the new-side line of its position.
\<close>

record position =
  new_line :: "int option"

record discussion_note =
  note_id :: int
  body :: string
  position :: "position option"

record discussion =
  disc_id :: string
  disc_notes :: "discussion_note list"

subsection \<open>Inputs of a run\<close>

text \<open>Command-line options, environment variables and the working directory.\<close>

record config =
  argc :: nat
  opt_coverityUrl :: "string option"
  opt_coverityProject :: "string option"
  opt_json :: "string option"
  opt_debug :: bool
  COVERITY_URL :: "string option"
  COVERITY_PROJECT :: "string option"
  COV_USER :: "string option"
  COVERITY_PASSPHRASE :: "string option"
  GITLAB_TOKEN :: "string option"
  CI_SERVER_URL :: "string option"
  CI_MERGE_REQUEST_IID :: "string option"
  CI_MERGE_REQUEST_DIFF_BASE_SHA :: "string option"
  CI_COMMIT_SHA :: "string option"
  CI_PROJECT_NAMESPACE :: "string option"
  CI_PROJECT_NAME :: "string option"
  CI_PROJECT_ID :: "string option"
  CI_COMMIT_BRANCH :: "string option"
  CI_COMMIT_REF_NAME :: "string option"
  cwd :: string

text \<open>
  The functions and the constant imported from the library
  \<^verbatim>\<open>@jcroall/synopsys-sig-node\<close>, which is not part of the repository: they are
  parameters of the model.  \<open>'dm\<close> is the library's type of diff maps.
\<close>

record 'dm lib =
  COVERITY_COMMENT_PREFACE :: string
  coverityCreateReviewCommentMessage :: "issue \<Rightarrow> string"
  coverityCreateIssueCommentMessage :: "issue \<Rightarrow> string \<Rightarrow> string"
  coverityIsInDiff :: "issue \<Rightarrow> 'dm \<Rightarrow> bool"
  coverityIsPresent :: "string \<Rightarrow> bool"
  coverityCreateNoLongerPresentMessage :: "string \<Rightarrow> string"
  relatavize_path :: "string \<Rightarrow> string \<Rightarrow> string"

subsection \<open>Observable behaviour\<close>

text \<open>
  The calls to the outside.  The four leading arguments of every GitLab call (server URL,
  token, project id, merge-request iid) and the four of the Coverity lookup (URL, user,
  passphrase, project name) are the same in every call of a run and are left out.
\<close>

datatype call =
    GetProject
  | ReadFile string
  | MapMatchingMergeKeys "string list"
  | GetDiscussions
  | GetDiffMap
  | UpdateNote "int option" int string
  | CreateDiscussion int string string string string
  | CreateDiscussionWithoutPosition int string string

datatype level = Info | Warn | Error | Debug

datatype message =
    Starting
  | MustSpecifyCoverityUrl
  | MustSpecifyCoverityProject
  | UsingJsonFilePath string
  | EnabledDebugMode
  | MustSpecifyGitlabVariables
  | MustSpecifyCommitBranch
  | MustSpecifyDiffBaseSha
  | NotAPullRequest
  | ConnectingToGitLab string
  | ProjectName string
  | MissingCoverityConnectInfo
  | LookupFailed string
  | FoundCoverityIssue string string int
  | IssueStateOnServer bool bool
  | AlreadyReported string int
  | UnableToUpdateDiscussion string
  | IgnoredOnServerNoComment
  | AlreadyExistedOnServerNoComment
  | AddingReviewComment
  | AddingIssueComment
  | UnableToCreateDiscussion string
  | NoLongerPresent string int
  | UnableToUpdateNote int string
  | FoundIssues nat

text \<open>
  An event is a logger call, the help text printed for an empty command line, or a call
  to the outside with its result: \<open>None\<close> when the promise resolved (or the synchronous
  call returned), the error's message when it rejected (or threw).
\<close>

datatype event =
    Log level message
  | OutputHelp
  | Call call "string option"

text \<open>
  How a run ends: \<^verbatim>\<open>process.exit(code)\<close>, an exception or rejection that nothing catches,
  or a plain return from \<^verbatim>\<open>main\<close>.
\<close>

datatype failure = TypeError | Rejection string

datatype outcome = Exit nat | Uncaught failure | Returned

text \<open>
  The outside world of one run: what each reading call answers (\<open>Inl\<close> an error message),
  and whether a writing call (update or create) rejects, which may depend on everything
  that happened before.  A rejection carries an \<^verbatim>\<open>Error\<close>; the program reads only its
  message.
\<close>

record 'dm world =
  gitlabGetProject :: "string + string"
  readFindings :: "string \<Rightarrow> string + issue list"
  coverityMapMatchingMergeKeys :: "string list \<Rightarrow> string + (string \<rightharpoonup> project_issue)"
  gitlabGetDiscussions :: "string + discussion list"
  gitlabGetDiffMap :: "string + 'dm"
  write_result :: "event list \<Rightarrow> call \<Rightarrow> string option"

text \<open>
  The state a run threads through: the events so far, the mutable array
  \<^verbatim>\<open>review_discussions\<close> (the pool), and a history variable that is not in the program:
  \<open>claimed\<close> records, for every element spliced out of the pool, the issue being processed
  and the element.
\<close>

record state =
  trace :: "event list"
  review_discussions :: "discussion list"
  claimed :: "(issue \<times> discussion) list"

definition initial_state :: state where
  "initial_state = \<lparr>trace = [], review_discussions = [], claimed = []\<rparr>"

type_synonym 'a prog = "state \<Rightarrow> state \<times> (outcome + 'a)"

definition ret :: "'a \<Rightarrow> 'a prog" where
  "ret x s = (s, Inr x)"

definition stop :: "outcome \<Rightarrow> 'a prog" where
  "stop out s = (s, Inl out)"

definition bnd :: "'a prog \<Rightarrow> ('a \<Rightarrow> 'b prog) \<Rightarrow> 'b prog" where
  "bnd m f s = (case m s of (s', Inl out) \<Rightarrow> (s', Inl out) | (s', Inr x) \<Rightarrow> f x s')"

definition seq :: "'a prog \<Rightarrow> 'b prog \<Rightarrow> 'b prog" where
  "seq m n = bnd m (\<lambda>_. n)"

definition emit :: "event \<Rightarrow> unit prog" where
  "emit e s = (s\<lparr>trace := trace s @ [e]\<rparr>, Inr ())"

definition lift :: "outcome + 'a \<Rightarrow> 'a prog" where
  "lift r s = (s, r)"

primrec for_each :: "('a \<Rightarrow> unit prog) \<Rightarrow> 'a list \<Rightarrow> unit prog" where
  "for_each f [] = ret ()"
| "for_each f (x # xs) = bnd (f x) (\<lambda>_. for_each f xs)"

text \<open>
  A call whose answer is an input of the run (a promise that resolves or rejects, a
  synchronous call that returns or throws): the call is recorded with its result, and
  the answer is handed to the code around it, which decides what an error means.
\<close>

definition attempt :: "call \<Rightarrow> string + 'a \<Rightarrow> (string + 'a) prog" where
  "attempt c r s =
     (s\<lparr>trace := trace s @ [Call c (case r of Inl err \<Rightarrow> Some err | Inr _ \<Rightarrow> None)]\<rparr>, Inr r)"

text \<open>An awaited call outside any \<^verbatim>\<open>try\<close>: an error ends the run.\<close>

definition await :: "call \<Rightarrow> string + 'a \<Rightarrow> 'a prog" where
  "await c r =
     bnd (attempt c r) (\<lambda>answer.
       case answer of
         Inl err \<Rightarrow> stop (Uncaught (Rejection err))
       | Inr x \<Rightarrow> ret x)"

text \<open>
  A writing call (update or create): the world decides, from everything that happened
  before, whether it rejects.
\<close>

definition perform :: "'dm world \<Rightarrow> call \<Rightarrow> string option prog" where
  "perform w c s =
     (s\<lparr>trace := trace s @ [Call c (write_result w (trace s) c)]\<rparr>,
      Inr (write_result w (trace s) c))"

text \<open>
  A writing call followed by \<^verbatim>\<open>.catch(error => logger.error(...))\<close>: a rejection is
  logged and the program goes on.
\<close>

definition write_call :: "'dm world \<Rightarrow> call \<Rightarrow> (string \<Rightarrow> message) \<Rightarrow> unit prog" where
  "write_call w c on_error =
     bnd (perform w c) (\<lambda>rejected.
       case rejected of
         None \<Rightarrow> ret ()
       | Some msg \<Rightarrow> emit (Log Error (on_error msg)))"

subsection \<open>Start-up (lines 275 to 341)\<close>

definition coverity_url :: "config \<Rightarrow> string option" where
  "coverity_url cfg =
     (if truthy (opt_coverityUrl cfg) then opt_coverityUrl cfg else COVERITY_URL cfg)"

definition coverity_project_name :: "config \<Rightarrow> string option" where
  "coverity_project_name cfg =
     (if truthy (opt_coverityProject cfg) then opt_coverityProject cfg
      else COVERITY_PROJECT cfg)"

definition coverity_results_file :: "config \<Rightarrow> string" where
  "coverity_results_file cfg =
     (case opt_json cfg of
        None \<Rightarrow> ''coverity-results.json''
      | Some f \<Rightarrow> if f \<noteq> [] then f else ''coverity-results.json'')"

definition is_merge_request :: "config \<Rightarrow> bool" where
  "is_merge_request cfg = truthy (CI_MERGE_REQUEST_IID cfg)"

definition startup :: "config \<Rightarrow> unit prog" where
  "startup cfg =
     seq (emit (Log Info Starting))
     (seq (if \<not> truthy (coverity_url cfg)
           then seq (emit (Log Error MustSpecifyCoverityUrl)) (stop (Exit 1)) else ret ())
     (seq (if \<not> truthy (coverity_project_name cfg)
           then seq (emit (Log Error MustSpecifyCoverityProject)) (stop (Exit 1)) else ret ())
     (seq (emit (Log Info (UsingJsonFilePath (coverity_results_file cfg))))
     (seq (if argc cfg = 0 then emit OutputHelp else ret ())
     (seq (if opt_debug cfg then emit (Log Debug EnabledDebugMode) else ret ())
     (seq (if \<not> truthy (GITLAB_TOKEN cfg) \<or> \<not> truthy (CI_SERVER_URL cfg)
              \<or> \<not> truthy (CI_PROJECT_NAMESPACE cfg) \<or> \<not> truthy (CI_PROJECT_NAME cfg)
              \<or> \<not> truthy (CI_PROJECT_ID cfg) \<or> \<not> truthy (CI_COMMIT_SHA cfg)
           then seq (emit (Log Error MustSpecifyGitlabVariables)) (stop (Exit 1)) else ret ())
     (seq (if \<not> is_merge_request cfg
           then (if \<not> truthy (CI_COMMIT_BRANCH cfg)
                 then seq (emit (Log Error MustSpecifyCommitBranch)) (stop (Exit 1)) else ret ())
           else (if \<not> truthy (CI_MERGE_REQUEST_DIFF_BASE_SHA cfg)
                 then seq (emit (Log Error MustSpecifyDiffBaseSha)) (stop (Exit 1)) else ret ()))
     (if \<not> is_merge_request cfg
      then seq (emit (Log Info NotAPullRequest)) (stop Returned)
      else ret ()))))))))"

subsection \<open>Bulk classification lookup (lines 354 to 372)\<close>

text \<open>\<^verbatim>\<open>new Set(keys)\<close>: the distinct keys, in the order of their first occurrence.\<close>

definition js_set :: "'a list \<Rightarrow> 'a list" where
  "js_set xs = foldl (\<lambda>acc x. if x \<in> set acc then acc else acc @ [x]) [] xs"

definition canCheckCoverity :: "config \<Rightarrow> bool" where
  "canCheckCoverity cfg =
     (truthy (coverity_url cfg) \<and> truthy (COV_USER cfg) \<and> truthy (COVERITY_PASSPHRASE cfg)
      \<and> truthy (coverity_project_name cfg))"

definition classify ::
  "config \<Rightarrow> 'dm world \<Rightarrow> issue list \<Rightarrow> (string \<rightharpoonup> project_issue) prog" where
  "classify cfg w issues =
     (if \<not> canCheckCoverity cfg
      then seq (emit (Log Warn MissingCoverityConnectInfo)) (ret Map.empty)
      else
        (let allMergeKeys = map mergeKey issues;
             allUniqueMergeKeys = js_set allMergeKeys in
         if canCheckCoverity cfg \<and> length issues > 0
         then bnd (attempt (MapMatchingMergeKeys allUniqueMergeKeys)
                     (coverityMapMatchingMergeKeys w allUniqueMergeKeys)) (\<lambda>answer.
                case answer of
                  Inl err \<Rightarrow> seq (emit (Log Error (LookupFailed err))) (stop (Exit 1))
                | Inr found \<Rightarrow> ret found)
         else ret Map.empty))"

subsection \<open>The discussion pool (lines 376 and 377)\<close>

text \<open>
  \<^verbatim>\<open>discussion.notes![0]\<close> followed by a property read: with no first note the read
  throws a \<^verbatim>\<open>TypeError\<close>.
\<close>

definition root_note :: "discussion \<Rightarrow> outcome + discussion_note" where
  "root_note d = (case disc_notes d of [] \<Rightarrow> Inl (Uncaught TypeError) | n # _ \<Rightarrow> Inr n)"

fun filter_js :: "('a \<Rightarrow> 'e + bool) \<Rightarrow> 'a list \<Rightarrow> 'e + 'a list" where
  "filter_js p [] = Inr []"
| "filter_js p (x # xs) =
     (case p x of
        Inl e \<Rightarrow> Inl e
      | Inr keep \<Rightarrow>
          (case filter_js p xs of
             Inl e \<Rightarrow> Inl e
           | Inr ys \<Rightarrow> Inr (if keep then x # ys else ys)))"

definition has_preface :: "'dm lib \<Rightarrow> discussion \<Rightarrow> outcome + bool" where
  "has_preface lib d =
     (case root_note d of
        Inl e \<Rightarrow> Inl e
      | Inr n \<Rightarrow> Inr (str_includes (body n) (COVERITY_COMMENT_PREFACE lib)))"

definition assign_review_discussions :: "discussion list \<Rightarrow> unit prog" where
  "assign_review_discussions kept s = (s\<lparr>review_discussions := kept\<rparr>, Inr ())"

definition fetch_discussions :: "'dm lib \<Rightarrow> 'dm world \<Rightarrow> unit prog" where
  "fetch_discussions lib w =
     bnd (await GetDiscussions (gitlabGetDiscussions w)) (\<lambda>discussions.
     bnd (lift (filter_js (has_preface lib) discussions)) assign_review_discussions)"

subsection \<open>One issue (lines 381 to 455)\<close>

text \<open>Lines 383 to 390: the state of the issue on the server.\<close>

definition ignoredOnServer :: "project_issue option \<Rightarrow> bool" where
  "ignoredOnServer projectIssue =
     (case projectIssue of
        None \<Rightarrow> False
      | Some pi \<Rightarrow> action pi = ''Ignore''
                   \<or> js_in_array (classification pi) [''False Positive'', ''Intentional''])"

definition newOnServer :: "project_issue option \<Rightarrow> bool" where
  "newOnServer projectIssue =
     (case projectIssue of
        None \<Rightarrow> True
      | Some pi \<Rightarrow> firstSnapshotId pi = lastSnapshotId pi)"

text \<open>Lines 394 to 398: the path and the link of the issue comment.\<close>

definition issue_path :: "config \<Rightarrow> 'dm lib \<Rightarrow> issue \<Rightarrow> string" where
  "issue_path cfg lib issue =
     (if startsWith (strippedMainEventFilePathname issue) ''/''
      then relatavize_path lib (cwd cfg) (strippedMainEventFilePathname issue)
      else strippedMainEventFilePathname issue)"

definition file_link :: "config \<Rightarrow> 'dm lib \<Rightarrow> issue \<Rightarrow> string" where
  "file_link cfg lib issue =
     template (CI_SERVER_URL cfg) @ ''/'' @ template (CI_PROJECT_NAMESPACE cfg) @ ''/''
       @ template (CI_PROJECT_NAME cfg) @ ''/-/blob/'' @ template (CI_COMMIT_REF_NAME cfg)
       @ ''/'' @ issue_path cfg lib issue @ ''#L'' @ number_string (mainEventLineNumber issue)"

text \<open>Lines 401 to 413: the two searches, each followed by the splice of what it found.\<close>

definition positioned_match :: "issue \<Rightarrow> discussion \<Rightarrow> outcome + bool" where
  "positioned_match issue d =
     (case root_note d of
        Inl e \<Rightarrow> Inl e
      | Inr n \<Rightarrow>
          Inr ((case position n of
                  None \<Rightarrow> False
                | Some p \<Rightarrow> new_line p = Some (mainEventLineNumber issue))
               \<and> str_includes (body n) (mergeKey issue)))"

definition unpositioned_match :: "issue \<Rightarrow> discussion \<Rightarrow> outcome + bool" where
  "unpositioned_match issue d =
     (case root_note d of
        Inl e \<Rightarrow> Inl e
      | Inr n \<Rightarrow> Inr (str_includes (body n) (mergeKey issue)))"

definition extract_match :: "issue \<Rightarrow> (discussion \<Rightarrow> outcome + bool) \<Rightarrow> discussion option prog" where
  "extract_match issue p s =
     (case findIndex p (review_discussions s) of
        Inl e \<Rightarrow> (s, Inl e)
      | Inr index \<Rightarrow>
          if index \<noteq> - 1
          then (let (removed, rest) = splice1 index (review_discussions s)
                in (s\<lparr>review_discussions := rest,
                      claimed := claimed s @ map (Pair issue) removed\<rparr>,
                    Inr (first_removed removed)))
          else (s, Inr None))"

definition or_empty :: "string option \<Rightarrow> string" where
  "or_empty v = (if truthy v then template v else [])"

definition process_issue ::
  "config \<Rightarrow> 'dm lib \<Rightarrow> 'dm world \<Rightarrow> (string \<rightharpoonup> project_issue) \<Rightarrow> 'dm \<Rightarrow> issue \<Rightarrow> unit prog" where
  "process_issue cfg lib w mergeKeyToIssue diff_map issue =
     seq (emit (Log Info (FoundCoverityIssue (mergeKey issue)
                  (strippedMainEventFilePathname issue) (mainEventLineNumber issue))))
     (let projectIssue = mergeKeyToIssue (mergeKey issue) in
      seq (if projectIssue \<noteq> None
           then emit (Log Info (IssueStateOnServer (ignoredOnServer projectIssue)
                                  (newOnServer projectIssue)))
           else ret ())
     (let reviewCommentBody = coverityCreateReviewCommentMessage lib issue;
          issueCommentBody = coverityCreateIssueCommentMessage lib issue (file_link cfg lib issue) in
      bnd (extract_match issue (positioned_match issue)) (\<lambda>existing_discussion.
      bnd (extract_match issue (unpositioned_match issue)) (\<lambda>existing_comment.
        case existing_discussion of
          Some d \<Rightarrow>
            bnd (lift (root_note d)) (\<lambda>n.
            seq (emit (Log Info (AlreadyReported (disc_id d) (note_id n))))
                (if body n \<noteq> reviewCommentBody
                 then write_call w (UpdateNote (parseInt10 (disc_id d)) (note_id n)
                                      reviewCommentBody) UnableToUpdateDiscussion
                 else ret ()))
        | None \<Rightarrow>
            (case existing_comment of
               Some c \<Rightarrow>
                 bnd (lift (root_note c)) (\<lambda>n.
                 seq (emit (Log Info (AlreadyReported (disc_id c) (note_id n))))
                     (if body n \<noteq> issueCommentBody
                      then write_call w (UpdateNote (parseInt10 (disc_id c)) (note_id n)
                                           reviewCommentBody) UnableToUpdateDiscussion
                      else ret ()))
             | None \<Rightarrow>
                 if ignoredOnServer projectIssue
                 then emit (Log Info IgnoredOnServerNoComment)
                 else if \<not> newOnServer projectIssue
                 then emit (Log Info AlreadyExistedOnServerNoComment)
                 else if coverityIsInDiff lib issue diff_map
                 then seq (emit (Log Info AddingReviewComment))
                          (write_call w
                             (CreateDiscussion (mainEventLineNumber issue)
                                (strippedMainEventFilePathname issue) reviewCommentBody
                                (or_empty (CI_MERGE_REQUEST_DIFF_BASE_SHA cfg))
                                (or_empty (CI_COMMIT_SHA cfg)))
                             UnableToCreateDiscussion)
                 else seq (emit (Log Info AddingIssueComment))
                          (write_call w
                             (CreateDiscussionWithoutPosition (mainEventLineNumber issue)
                                (strippedMainEventFilePathname issue) issueCommentBody)
                             UnableToCreateDiscussion))))))"

subsection \<open>The loop, the sweep and the exit (lines 380 to 475)\<close>

definition process_issues ::
  "config \<Rightarrow> 'dm lib \<Rightarrow> 'dm world \<Rightarrow> (string \<rightharpoonup> project_issue) \<Rightarrow> 'dm \<Rightarrow> issue list \<Rightarrow> unit prog" where
  "process_issues cfg lib w mergeKeyToIssue diff_map issues =
     for_each (process_issue cfg lib w mergeKeyToIssue diff_map) issues"

definition sweep_discussion :: "'dm lib \<Rightarrow> 'dm world \<Rightarrow> discussion \<Rightarrow> unit prog" where
  "sweep_discussion lib w d =
     bnd (lift (root_note d)) (\<lambda>n.
       if coverityIsPresent lib (body n)
       then seq (emit (Log Info (NoLongerPresent (disc_id d) (note_id n))))
                (write_call w
                   (UpdateNote (parseInt10 (disc_id d)) (note_id n)
                      (coverityCreateNoLongerPresentMessage lib (body n)))
                   (UnableToUpdateNote (note_id n)))
       else ret ())"

text \<open>
  Lines 458 to 467: the loop over \<^verbatim>\<open>review_discussions\<close> as the issues have left it;
  nothing changes the array while the loop runs.
\<close>

definition sweep :: "'dm lib \<Rightarrow> 'dm world \<Rightarrow> unit prog" where
  "sweep lib w s = for_each (sweep_discussion lib w) (review_discussions s) s"

definition report :: "issue list \<Rightarrow> unit prog" where
  "report issues =
     seq (emit (Log Info (FoundIssues (length issues))))
         (if length issues > 0 then stop (Exit 1) else stop (Exit 0))"

subsection \<open>The whole program\<close>

text \<open>Lines 343 to 475: the run on a merge request, after the start-up checks.\<close>

definition run_on_merge_request :: "config \<Rightarrow> 'dm lib \<Rightarrow> 'dm world \<Rightarrow> unit prog" where
  "run_on_merge_request cfg lib w =
     seq (emit (Log Info (ConnectingToGitLab (template (CI_SERVER_URL cfg)))))
     (bnd (await GetProject (gitlabGetProject w)) (\<lambda>project.
     seq (emit (Log Debug (ProjectName project)))
     (bnd (await (ReadFile (coverity_results_file cfg))
             (readFindings w (coverity_results_file cfg))) (\<lambda>issues.
     bnd (classify cfg w issues) (\<lambda>mergeKeyToIssue.
     seq (fetch_discussions lib w)
     (bnd (await GetDiffMap (gitlabGetDiffMap w)) (\<lambda>diff_map.
     seq (process_issues cfg lib w mergeKeyToIssue diff_map issues)
     (seq (sweep lib w)
          (report issues)))))))))"

definition main_prog :: "config \<Rightarrow> 'dm lib \<Rightarrow> 'dm world \<Rightarrow> unit prog" where
  "main_prog cfg lib w = seq (startup cfg) (run_on_merge_request cfg lib w)"

definition main :: "config \<Rightarrow> 'dm lib \<Rightarrow> 'dm world \<Rightarrow> state \<times> outcome" where
  "main cfg lib w =
     (case main_prog cfg lib w initial_state of
        (s, Inl out) \<Rightarrow> (s, out)
      | (s, Inr _) \<Rightarrow> (s, Returned))"

subsection \<open>Observations on a run\<close>

text \<open>
  A run up to the end of the loop over the issues (the start-up checks and lines 343 to
  456): \<open>through_issue_loop\<close> is \<open>run_on_merge_request\<close> without the sweep and the
  exit, and hands on the findings; \<open>after_issue_loop\<close> is the state of a run at that
  point together with the findings, or with the way the run has ended before.
\<close>

definition through_issue_loop :: "config \<Rightarrow> 'dm lib \<Rightarrow> 'dm world \<Rightarrow> issue list prog" where
  "through_issue_loop cfg lib w =
     seq (emit (Log Info (ConnectingToGitLab (template (CI_SERVER_URL cfg)))))
     (bnd (await GetProject (gitlabGetProject w)) (\<lambda>project.
     seq (emit (Log Debug (ProjectName project)))
     (bnd (await (ReadFile (coverity_results_file cfg))
             (readFindings w (coverity_results_file cfg))) (\<lambda>issues.
     bnd (classify cfg w issues) (\<lambda>mergeKeyToIssue.
     seq (fetch_discussions lib w)
     (bnd (await GetDiffMap (gitlabGetDiffMap w)) (\<lambda>diff_map.
     seq (process_issues cfg lib w mergeKeyToIssue diff_map issues)
         (ret issues))))))))"

definition after_issue_loop ::
  "config \<Rightarrow> 'dm lib \<Rightarrow> 'dm world \<Rightarrow> state \<times> (outcome + issue list)" where
  "after_issue_loop cfg lib w = seq (startup cfg) (through_issue_loop cfg lib w) initial_state"

text \<open>The calls of a trace, in order, without their results.\<close>

fun call_of :: "event \<Rightarrow> call list" where
  "call_of (Call c r) = [c]"
| "call_of e = []"

definition calls_of :: "event list \<Rightarrow> call list" where
  "calls_of t = concat (map call_of t)"

text \<open>The discussions spliced out so far together with those still in the pool.\<close>

definition claimed_and_pool :: "state \<Rightarrow> discussion multiset" where
  "claimed_and_pool s = mset (map snd (claimed s)) + mset (review_discussions s)"

text \<open>The writing calls, and what is left of a trace when their failures are forgotten.\<close>

fun is_write :: "call \<Rightarrow> bool" where
  "is_write (UpdateNote d n b) = True"
| "is_write (CreateDiscussion l p b base head) = True"
| "is_write (CreateDiscussionWithoutPosition l p b) = True"
| "is_write c = False"

fun is_lookup :: "call \<Rightarrow> bool" where
  "is_lookup (MapMatchingMergeKeys ks) = True"
| "is_lookup c = False"

fun failed_write :: "event \<Rightarrow> string list" where
  "failed_write (Call c (Some msg)) = (if is_write c then [msg] else [])"
| "failed_write e = []"

fun logged_write_failure :: "event \<Rightarrow> string list" where
  "logged_write_failure (Log Error (UnableToUpdateDiscussion msg)) = [msg]"
| "logged_write_failure (Log Error (UnableToCreateDiscussion msg)) = [msg]"
| "logged_write_failure (Log Error (UnableToUpdateNote n msg)) = [msg]"
| "logged_write_failure e = []"

fun forget_write_result :: "event \<Rightarrow> event" where
  "forget_write_result (Call c r) = (if is_write c then Call c None else Call c r)"
| "forget_write_result e = e"

definition without_write_failures :: "event list \<Rightarrow> event list" where
  "without_write_failures t =
     map forget_write_result (filter (\<lambda>e. logged_write_failure e = []) t)"

text \<open>No call so far is a bulk lookup; every failed writing call so far has its log line.\<close>

definition no_lookup :: "state \<Rightarrow> bool" where
  "no_lookup s = (filter is_lookup (calls_of (trace s)) = [])"

definition failures_logged :: "state \<Rightarrow> bool" where
  "failures_logged s =
     (concat (map failed_write (trace s)) = concat (map logged_write_failure (trace s)))"

text \<open>Every discussion of the pool has a root note.\<close>

definition rooted :: "state \<Rightarrow> bool" where
  "rooted s = list_all (\<lambda>d. disc_notes d \<noteq> []) (review_discussions s)"

text \<open>The start-up checks all pass: the run is on a merge request and reaches GitLab.\<close>

definition startup_passes :: "config \<Rightarrow> bool" where
  "startup_passes cfg =
     (truthy (coverity_url cfg) \<and> truthy (coverity_project_name cfg)
      \<and> truthy (GITLAB_TOKEN cfg) \<and> truthy (CI_SERVER_URL cfg)
      \<and> truthy (CI_PROJECT_NAMESPACE cfg) \<and> truthy (CI_PROJECT_NAME cfg)
      \<and> truthy (CI_PROJECT_ID cfg) \<and> truthy (CI_COMMIT_SHA cfg)
      \<and> is_merge_request cfg \<and> truthy (CI_MERGE_REQUEST_DIFF_BASE_SHA cfg))"

text \<open>Properties of programs used in the proofs: an invariant of the state, and two
  runs that differ only in the failures of their writing calls.\<close>

definition invariant :: "(state \<Rightarrow> bool) \<Rightarrow> 'a prog \<Rightarrow> bool" where
  "invariant I m = (\<forall>s. I s \<longrightarrow> I (fst (m s)))"

definition trace_blind :: "(state \<Rightarrow> bool) \<Rightarrow> bool" where
  "trace_blind I = (\<forall>s t. I (s\<lparr>trace := t\<rparr>) = I s)"

text \<open>
  Started on a pool with root notes, a program proceeds: it does not end the run, leaves
  a pool with root notes and returns a value of which \<open>Q\<close> holds.
\<close>

definition proceeds :: "'a prog \<Rightarrow> ('a \<Rightarrow> bool) \<Rightarrow> bool" where
  "proceeds m Q = (\<forall>s. rooted s \<longrightarrow> (\<exists>s' x. m s = (s', Inr x) \<and> rooted s' \<and> Q x))"

definition alike :: "state \<Rightarrow> state \<Rightarrow> bool" where
  "alike s1 s2 =
     (review_discussions s1 = review_discussions s2 \<and> claimed s1 = claimed s2
      \<and> without_write_failures (trace s1) = without_write_failures (trace s2))"

definition sim :: "'a prog \<Rightarrow> 'a prog \<Rightarrow> bool" where
  "sim m1 m2 =
     (\<forall>s1 s2. alike s1 s2 \<longrightarrow> alike (fst (m1 s1)) (fst (m2 s2)) \<and> snd (m1 s1) = snd (m2 s2))"

subsection \<open>Sample inputs\<close>

text \<open>
  A complete configuration of a merge-request pipeline; stand-ins for the library's
  rendering functions, with a diff map that lists the changed lines; two findings; and
  discussions as GitLab returns them.
\<close>

definition sample_cfg :: config where
  "sample_cfg =
     \<lparr>argc = 2, opt_coverityUrl = None, opt_coverityProject = None,
      opt_json = Some ''results.json'', opt_debug = False,
      COVERITY_URL = Some ''https://coverity.example'', COVERITY_PROJECT = Some ''demo'',
      COV_USER = Some ''reporter'', COVERITY_PASSPHRASE = Some ''secret'',
      GITLAB_TOKEN = Some ''token'', CI_SERVER_URL = Some ''https://gitlab.example'',
      CI_MERGE_REQUEST_IID = Some ''7'', CI_MERGE_REQUEST_DIFF_BASE_SHA = Some ''base'',
      CI_COMMIT_SHA = Some ''head'', CI_PROJECT_NAMESPACE = Some ''group'',
      CI_PROJECT_NAME = Some ''demo'', CI_PROJECT_ID = Some ''42'',
      CI_COMMIT_BRANCH = None, CI_COMMIT_REF_NAME = Some ''feature'', cwd = ''/builds/demo''\<rparr>"

definition sample_lib :: "(string \<times> int) list lib" where
  "sample_lib =
     \<lparr>COVERITY_COMMENT_PREFACE = ''<!-- Coverity'',
      coverityCreateReviewCommentMessage = (\<lambda>i. ''<!-- Coverity '' @ mergeKey i @ '' PRESENT -->''),
      coverityCreateIssueCommentMessage =
        (\<lambda>i link. ''<!-- Coverity '' @ mergeKey i @ '' PRESENT --> see '' @ link),
      coverityIsInDiff =
        (\<lambda>i changed. (strippedMainEventFilePathname i, mainEventLineNumber i) \<in> set changed),
      coverityIsPresent = (\<lambda>b. str_includes b '' PRESENT ''),
      coverityCreateNoLongerPresentMessage = (\<lambda>b. ''<!-- Coverity resolved -->''),
      relatavize_path = (\<lambda>dir p. drop (Suc (length dir)) p)\<rparr>"

definition issue_K1 :: issue where
  "issue_K1 = \<lparr>mergeKey = ''K1'', strippedMainEventFilePathname = ''src/a.c'',
                mainEventLineNumber = 10\<rparr>"

definition issue_K2 :: issue where
  "issue_K2 = \<lparr>mergeKey = ''K2'', strippedMainEventFilePathname = ''src/b.c'',
                mainEventLineNumber = 20\<rparr>"

definition positioned_K1 :: discussion where
  "positioned_K1 =
     \<lparr>disc_id = ''3f01'',
      disc_notes = [\<lparr>note_id = 11, body = ''<!-- Coverity K1 PRESENT --> older text'',
                     position = Some \<lparr>new_line = Some 10\<rparr>\<rparr>]\<rparr>"

definition unpositioned_K1 :: discussion where
  "unpositioned_K1 =
     \<lparr>disc_id = ''3f02'',
      disc_notes = [\<lparr>note_id = 12, body = ''<!-- Coverity K1 PRESENT --> see elsewhere'',
                     position = None\<rparr>]\<rparr>"

definition unpositioned_K2 :: discussion where
  "unpositioned_K2 =
     \<lparr>disc_id = ''3f03'',
      disc_notes = [\<lparr>note_id = 13, body = ''<!-- Coverity K2 PRESENT -->'',
                     position = None\<rparr>]\<rparr>"

definition stale_K9 :: discussion where
  "stale_K9 =
     \<lparr>disc_id = ''3f04'',
      disc_notes = [\<lparr>note_id = 14, body = ''<!-- Coverity K9 PRESENT -->'',
                     position = None\<rparr>]\<rparr>"

definition resolved_K8 :: discussion where
  "resolved_K8 =
     \<lparr>disc_id = ''3f05'',
      disc_notes = [\<lparr>note_id = 15, body = ''<!-- Coverity resolved -->'',
                     position = None\<rparr>]\<rparr>"

text \<open>
  The unpositioned discussion of \<open>K1\<close> with the review message as its body, and with
  the issue-comment message as its body.
\<close>

definition rewritten_K1 :: discussion where
  "rewritten_K1 =
     \<lparr>disc_id = ''3f02'',
      disc_notes = [\<lparr>note_id = 12, body = ''<!-- Coverity K1 PRESENT -->'',
                     position = None\<rparr>]\<rparr>"

definition linked_K1 :: discussion where
  "linked_K1 =
     \<lparr>disc_id = ''3f02'',
      disc_notes =
        [\<lparr>note_id = 12,
          body = ''<!-- Coverity K1 PRESENT --> see https://gitlab.example/group/demo/-/blob/feature/src/a.c#L10'',
          position = None\<rparr>]\<rparr>"

text \<open>Server records: an ignored issue, a false positive, an issue of several snapshots.\<close>

definition ignored_record :: project_issue where
  "ignored_record = \<lparr>action = ''Ignore'', classification = ''Unclassified'',
                      firstSnapshotId = 10003, lastSnapshotId = 10003\<rparr>"

definition false_positive_record :: project_issue where
  "false_positive_record = \<lparr>action = ''Undecided'', classification = ''False Positive'',
                             firstSnapshotId = 10003, lastSnapshotId = 10003\<rparr>"

definition intentional_record :: project_issue where
  "intentional_record = \<lparr>action = ''Undecided'', classification = ''Intentional'',
                          firstSnapshotId = 10003, lastSnapshotId = 10003\<rparr>"

definition old_record :: project_issue where
  "old_record = \<lparr>action = ''Undecided'', classification = ''Unclassified'',
                  firstSnapshotId = 10001, lastSnapshotId = 10003\<rparr>"

text \<open>A GitLab that rejects every update of note 11 and accepts all other writes.\<close>

definition rejects_note_11 :: "event list \<Rightarrow> call \<Rightarrow> string option" where
  "rejects_note_11 history c =
     (case c of
        UpdateNote d n b \<Rightarrow> if n = 11 then Some ''502 Bad Gateway'' else None
      | _ \<Rightarrow> None)"

definition sample_state :: "discussion list \<Rightarrow> state" where
  "sample_state pool = \<lparr>trace = [], review_discussions = pool, claimed = []\<rparr>"

definition sample_world ::
  "issue list \<Rightarrow> discussion list \<Rightarrow> string + (string \<rightharpoonup> project_issue)
     \<Rightarrow> (string \<times> int) list world" where
  "sample_world issues discussions found =
     \<lparr>gitlabGetProject = Inr ''demo'',
      readFindings = (\<lambda>file. Inr issues),
      coverityMapMatchingMergeKeys = (\<lambda>keys. found),
      gitlabGetDiscussions = Inr discussions,
      gitlabGetDiffMap = Inr [(''src/a.c'', 10)],
      write_result = (\<lambda>history c. None)\<rparr>"

section \<open>Properties\<close>

subsection \<open>Invariants of programs\<close>

lemma invariant_ret: "invariant I (ret x)"
  by (simp add: invariant_def ret_def)

lemma invariant_stop: "invariant I (stop out)"
  by (simp add: invariant_def stop_def)

lemma invariant_lift: "invariant I (lift r)"
  by (simp add: invariant_def lift_def)

lemma invariant_bnd:
  assumes "invariant I m" and "\<And>x. invariant I (f x)"
  shows "invariant I (bnd m f)"
  unfolding invariant_def
proof (intro allI impI)
  fix s assume "I s"
  with assms(1) have 1: "I (fst (m s))" by (simp add: invariant_def)
  show "I (fst (bnd m f s))"
  proof (cases "m s")
    case (Pair s' r)
    with 1 have s': "I s'" by simp
    show ?thesis
    proof (cases r)
      case (Inl out)
      with Pair s' show ?thesis by (simp add: bnd_def)
    next
      case (Inr x)
      from assms(2) [of x] s' have "I (fst (f x s'))" by (simp add: invariant_def)
      with Pair Inr show ?thesis by (simp add: bnd_def)
    qed
  qed
qed

lemma invariant_seq: "invariant I m \<Longrightarrow> invariant I n \<Longrightarrow> invariant I (seq m n)"
  by (simp add: seq_def invariant_bnd)

lemma invariant_if:
  "(b \<Longrightarrow> invariant I m) \<Longrightarrow> (\<not> b \<Longrightarrow> invariant I n) \<Longrightarrow> invariant I (if b then m else n)"
  by simp

lemma invariant_option:
  "invariant I m \<Longrightarrow> (\<And>x. invariant I (f x))
     \<Longrightarrow> invariant I (case v of None \<Rightarrow> m | Some x \<Rightarrow> f x)"
  by (cases v) simp_all

lemma invariant_sum:
  "(\<And>e. invariant I (f e)) \<Longrightarrow> (\<And>x. invariant I (g x))
     \<Longrightarrow> invariant I (case v of Inl e \<Rightarrow> f e | Inr x \<Rightarrow> g x)"
  by (cases v) simp_all

lemma invariant_for_each: "(\<And>x. invariant I (f x)) \<Longrightarrow> invariant I (for_each f xs)"
  by (induction xs) (simp_all add: invariant_ret invariant_bnd)

lemma invariant_emit: "(\<And>s. I s \<Longrightarrow> I (s\<lparr>trace := trace s @ [e]\<rparr>)) \<Longrightarrow> invariant I (emit e)"
  by (simp add: invariant_def emit_def)

lemma invariant_attempt:
  "(\<And>s res. I s \<Longrightarrow> I (s\<lparr>trace := trace s @ [Call c res]\<rparr>)) \<Longrightarrow> invariant I (attempt c r)"
  by (simp add: invariant_def attempt_def)

lemma invariant_perform:
  "(\<And>s res. I s \<Longrightarrow> I (s\<lparr>trace := trace s @ [Call c res]\<rparr>)) \<Longrightarrow> invariant I (perform w c)"
  by (simp add: invariant_def perform_def)

lemma blind_emit: "trace_blind I \<Longrightarrow> invariant I (emit e)"
  by (simp add: invariant_def emit_def trace_blind_def)

lemma blind_write_call: "trace_blind I \<Longrightarrow> invariant I (write_call w c h)"
  unfolding write_call_def
  by (intro invariant_bnd invariant_option invariant_ret blind_emit invariant_perform)
     (simp_all add: trace_blind_def)

subsection \<open>What is spliced out of the pool is gone from it\<close>

lemma splice1_mset: "mset (fst (splice1 i xs)) + mset (snd (splice1 i xs)) = mset xs"
proof -
  have "mset (take 1 (drop k xs)) + mset (take k xs @ drop (Suc k) xs) = mset xs" for k
  proof -
    have "take 1 (drop k xs) @ drop (Suc k) xs = drop k xs"
      by (metis append_take_drop_id drop_drop plus_1_eq_Suc)
    then have "mset (take 1 (drop k xs)) + mset (drop (Suc k) xs) = mset (drop k xs)"
      by (metis mset_append)
    moreover have "mset (take k xs) + mset (drop k xs) = mset xs"
      by (metis append_take_drop_id mset_append)
    ultimately show ?thesis by (simp add: ac_simps)
  qed
  then show ?thesis by (simp add: splice1_def Let_def)
qed

lemma extract_match_conserves:
  "claimed_and_pool (fst (extract_match issue p s)) = claimed_and_pool s"
proof (cases "findIndex p (review_discussions s)")
  case (Inl e)
  then show ?thesis by (simp add: extract_match_def)
next
  case (Inr i)
  show ?thesis
  proof (cases "i = - 1")
    case True
    with Inr show ?thesis by (simp add: extract_match_def)
  next
    case False
    obtain removed rest where sp: "splice1 i (review_discussions s) = (removed, rest)"
      by (cases "splice1 i (review_discussions s)")
    from splice1_mset [of i "review_discussions s"] sp
    have "mset removed + mset rest = mset (review_discussions s)" by simp
    moreover have "map snd (map (Pair issue) removed) = removed"
      by (induction removed) auto
    ultimately show ?thesis
      using Inr False sp by (simp add: extract_match_def claimed_and_pool_def ac_simps)
  qed
qed

lemma conserved_blind: "trace_blind (\<lambda>s. claimed_and_pool s = M)"
  by (simp add: trace_blind_def claimed_and_pool_def)

lemma invariant_extract_match:
  "invariant (\<lambda>s. claimed_and_pool s = M) (extract_match issue p)"
  by (simp add: invariant_def extract_match_conserves)

lemma process_issue_conserves:
  "invariant (\<lambda>s. claimed_and_pool s = M) (process_issue cfg lib w m dm issue)"
  unfolding process_issue_def Let_def
  by (intro invariant_seq invariant_bnd invariant_if invariant_option blind_emit
        blind_write_call invariant_ret invariant_lift invariant_extract_match conserved_blind)

lemma process_issues_conserves:
  "invariant (\<lambda>s. claimed_and_pool s = M) (process_issues cfg lib w m dm issues)"
  unfolding process_issues_def by (intro invariant_for_each process_issue_conserves)

text \<open>
  Claim C1.  Whatever the issues, the pool and the outcome of the writing calls, the loop
  over the issues neither loses nor duplicates a discussion: the discussions claimed
  (spliced out of the pool while some issue was processed) together with those left in
  the pool are, as a multiset, the ones before the loop.  Hence, when the discussions
  before the loop have pairwise different ids, so have the claimed ones and the pool
  after it: no discussion id is claimed twice, and a claimed discussion is no longer in
  the pool for a later issue to match.
\<close>

theorem at_most_one_claim:
  "claimed_and_pool (fst (process_issues cfg lib w m dm issues s)) = claimed_and_pool s
   \<and> (distinct (map disc_id (map snd (claimed s) @ review_discussions s))
        \<longrightarrow> distinct (map disc_id
              (map snd (claimed (fst (process_issues cfg lib w m dm issues s)))
               @ review_discussions (fst (process_issues cfg lib w m dm issues s)))))"
proof -
  let ?s' = "fst (process_issues cfg lib w m dm issues s)"
  have c: "claimed_and_pool ?s' = claimed_and_pool s"
    using process_issues_conserves [of "claimed_and_pool s" cfg lib w m dm issues]
    by (simp add: invariant_def)
  then have "mset (map snd (claimed ?s') @ review_discussions ?s')
              = mset (map snd (claimed s) @ review_discussions s)"
    by (simp add: claimed_and_pool_def)
  then have "mset (map disc_id (map snd (claimed ?s') @ review_discussions ?s'))
              = mset (map disc_id (map snd (claimed s) @ review_discussions s))"
    by (metis mset_map)
  then have "distinct (map disc_id (map snd (claimed ?s') @ review_discussions ?s'))
              = distinct (map disc_id (map snd (claimed s) @ review_discussions s))"
    by (rule mset_eq_imp_distinct_iff)
  with c show ?thesis by simp
qed

theorem at_most_one_claim_witness:
  "distinct (map disc_id
      (map snd (claimed (sample_state [positioned_K1, unpositioned_K1, unpositioned_K2, stale_K9]))
       @ review_discussions (sample_state [positioned_K1, unpositioned_K1, unpositioned_K2, stale_K9])))
   \<and> distinct (map disc_id
      (map snd (claimed (fst (process_issues sample_cfg sample_lib
          (sample_world [] [] (Inr Map.empty)) Map.empty [] [issue_K1, issue_K2]
          (sample_state [positioned_K1, unpositioned_K1, unpositioned_K2, stale_K9]))))
       @ review_discussions (fst (process_issues sample_cfg sample_lib
          (sample_world [] [] (Inr Map.empty)) Map.empty [] [issue_K1, issue_K2]
          (sample_state [positioned_K1, unpositioned_K1, unpositioned_K2, stale_K9])))))
   \<and> map (\<lambda>(i, d). (mergeKey i, disc_id d))
        (claimed (fst (process_issues sample_cfg sample_lib
          (sample_world [] [] (Inr Map.empty)) Map.empty [] [issue_K1, issue_K2]
          (sample_state [positioned_K1, unpositioned_K1, unpositioned_K2, stale_K9]))))
      = [(''K1'', ''3f01''), (''K1'', ''3f02''), (''K2'', ''3f03'')]"
proof -
  have h: "distinct (map disc_id
      (map snd (claimed (sample_state [positioned_K1, unpositioned_K1, unpositioned_K2, stale_K9]))
       @ review_discussions (sample_state [positioned_K1, unpositioned_K1, unpositioned_K2, stale_K9])))"
    by code_simp
  have k: "map (\<lambda>(i, d). (mergeKey i, disc_id d))
        (claimed (fst (process_issues sample_cfg sample_lib
          (sample_world [] [] (Inr Map.empty)) Map.empty [] [issue_K1, issue_K2]
          (sample_state [positioned_K1, unpositioned_K1, unpositioned_K2, stale_K9]))))
      = [(''K1'', ''3f01''), (''K1'', ''3f02''), (''K2'', ''3f03'')]"
    by code_simp
  from at_most_one_claim [of sample_cfg sample_lib "sample_world [] [] (Inr Map.empty)"
      Map.empty "[]" "[issue_K1, issue_K2]"
      "sample_state [positioned_K1, unpositioned_K1, unpositioned_K2, stale_K9]"] h k
  show ?thesis by blast
qed

subsection \<open>The sweep\<close>

lemma calls_of_append: "calls_of (t @ u) = calls_of t @ calls_of u"
  by (simp add: calls_of_def)

lemma calls_of_simps: "calls_of [] = []" "calls_of (e # t) = call_of e @ calls_of t"
  by (simp_all add: calls_of_def)

lemma sweep_discussion_rooted:
  assumes "disc_notes d = n # ns"
  shows "\<exists>ev. sweep_discussion lib w d s = (s\<lparr>trace := trace s @ ev\<rparr>, Inr ())
           \<and> calls_of ev
               = (if coverityIsPresent lib (body n)
                  then [UpdateNote (parseInt10 (disc_id d)) (note_id n)
                          (coverityCreateNoLongerPresentMessage lib (body n))]
                  else [])"
proof (cases "coverityIsPresent lib (body n)")
  case False
  with assms have "sweep_discussion lib w d s = (s, Inr ())"
    by (simp add: sweep_discussion_def root_note_def bnd_def lift_def ret_def)
  with False show ?thesis by (intro exI [of _ "[]"]) (simp add: calls_of_simps)
next
  case True
  let ?c = "UpdateNote (parseInt10 (disc_id d)) (note_id n)
              (coverityCreateNoLongerPresentMessage lib (body n))"
  let ?l = "Log Info (NoLongerPresent (disc_id d) (note_id n))"
  show ?thesis
  proof (cases "write_result w (trace s @ [?l]) ?c")
    case None
    with assms True
    have "sweep_discussion lib w d s = (s\<lparr>trace := trace s @ [?l, Call ?c None]\<rparr>, Inr ())"
      by (simp add: sweep_discussion_def root_note_def bnd_def seq_def lift_def ret_def
            emit_def write_call_def perform_def)
    with True show ?thesis by (auto simp: calls_of_simps)
  next
    case (Some msg)
    with assms True
    have "sweep_discussion lib w d s
            = (s\<lparr>trace := trace s @ [?l, Call ?c (Some msg),
                                       Log Error (UnableToUpdateNote (note_id n) msg)]\<rparr>, Inr ())"
      by (simp add: sweep_discussion_def root_note_def bnd_def seq_def lift_def ret_def
            emit_def write_call_def perform_def)
    with True show ?thesis by (auto simp: calls_of_simps)
  qed
qed

lemma for_each_sweep:
  "\<forall>d\<in>set ds. disc_notes d \<noteq> [] \<Longrightarrow>
     \<exists>ev. for_each (sweep_discussion lib w) ds s = (s\<lparr>trace := trace s @ ev\<rparr>, Inr ())
       \<and> calls_of ev
           = map (\<lambda>d. UpdateNote (parseInt10 (disc_id d)) (note_id (hd (disc_notes d)))
                        (coverityCreateNoLongerPresentMessage lib (body (hd (disc_notes d)))))
               (filter (\<lambda>d. coverityIsPresent lib (body (hd (disc_notes d)))) ds)"
proof (induction ds arbitrary: s)
  case Nil
  show ?case by (intro exI [of _ "[]"]) (simp add: ret_def calls_of_simps)
next
  case (Cons d ds)
  from Cons.prems obtain n ns where root: "disc_notes d = n # ns"
    by (cases "disc_notes d") auto
  from sweep_discussion_rooted [OF root, of lib w s] obtain ev1
    where step: "sweep_discussion lib w d s = (s\<lparr>trace := trace s @ ev1\<rparr>, Inr ())"
      and calls1: "calls_of ev1
               = (if coverityIsPresent lib (body n)
                  then [UpdateNote (parseInt10 (disc_id d)) (note_id n)
                          (coverityCreateNoLongerPresentMessage lib (body n))]
                  else [])"
    by blast
  from Cons.prems have "\<forall>d\<in>set ds. disc_notes d \<noteq> []" by simp
  from Cons.IH [OF this, of "s\<lparr>trace := trace s @ ev1\<rparr>"] obtain ev2
    where rest: "for_each (sweep_discussion lib w) ds (s\<lparr>trace := trace s @ ev1\<rparr>)
                   = (s\<lparr>trace := trace s @ ev1 @ ev2\<rparr>, Inr ())"
      and calls2: "calls_of ev2
           = map (\<lambda>d. UpdateNote (parseInt10 (disc_id d)) (note_id (hd (disc_notes d)))
                        (coverityCreateNoLongerPresentMessage lib (body (hd (disc_notes d)))))
               (filter (\<lambda>d. coverityIsPresent lib (body (hd (disc_notes d)))) ds)"
    by auto
  from step rest
  have "for_each (sweep_discussion lib w) (d # ds) s
          = (s\<lparr>trace := trace s @ (ev1 @ ev2)\<rparr>, Inr ())"
    by (simp add: bnd_def)
  moreover from calls1 calls2 root
  have "calls_of (ev1 @ ev2)
           = map (\<lambda>d. UpdateNote (parseInt10 (disc_id d)) (note_id (hd (disc_notes d)))
                        (coverityCreateNoLongerPresentMessage lib (body (hd (disc_notes d)))))
               (filter (\<lambda>d. coverityIsPresent lib (body (hd (disc_notes d)))) (d # ds))"
    by (simp add: calls_of_append)
  ultimately show ?case by blast
qed

text \<open>
  On a pool whose discussions have a root note, the sweep only adds events to the
  trace and runs to its end; the calls among these events are, in pool order, one update
  for every discussion whose root-note body passes the presence check, writing the
  no-longer-present message made from that body, and none for the others.
\<close>

lemma sweep_events:
  assumes "\<forall>d\<in>set (review_discussions s). disc_notes d \<noteq> []"
  shows "\<exists>ev. sweep lib w s = (s\<lparr>trace := trace s @ ev\<rparr>, Inr ())
     \<and> calls_of ev
         = map (\<lambda>d. UpdateNote (parseInt10 (disc_id d)) (note_id (hd (disc_notes d)))
                      (coverityCreateNoLongerPresentMessage lib (body (hd (disc_notes d)))))
             (filter (\<lambda>d. coverityIsPresent lib (body (hd (disc_notes d))))
                (review_discussions s))"
  unfolding sweep_def using assms by (rule for_each_sweep)

subsection \<open>Searching the pool\<close>

lemma findIndex_first:
  "\<forall>x\<in>set xs. p x = Inr False \<Longrightarrow> p d = Inr True
     \<Longrightarrow> findIndex p (xs @ d # ys) = Inr (int (length xs))"
  by (induction xs) auto

lemma findIndex_none: "\<forall>x\<in>set xs. p x = Inr False \<Longrightarrow> findIndex p xs = Inr (- 1)"
  by (induction xs) auto

lemma splice1_at: "splice1 (int (length xs)) (xs @ d # ys) = ([d], xs @ ys)"
  by (simp add: splice1_def)

lemma extract_match_found:
  assumes "review_discussions s = xs @ d # ys"
    and "\<forall>x\<in>set xs. p x = Inr False" and "p d = Inr True"
  shows "extract_match issue p s
          = (s\<lparr>review_discussions := xs @ ys, claimed := claimed s @ [(issue, d)]\<rparr>,
             Inr (Some d))"
  using assms
  by (simp add: extract_match_def findIndex_first splice1_at first_removed_def)

lemma extract_match_none:
  "\<forall>x\<in>set (review_discussions s). p x = Inr False \<Longrightarrow> extract_match issue p s = (s, Inr None)"
  by (simp add: extract_match_def findIndex_none)

lemma positioned_match_root:
  "positioned_match issue d = Inr True \<Longrightarrow> root_note d = Inr (hd (disc_notes d))"
  by (simp add: positioned_match_def root_note_def split: list.splits)

lemma unpositioned_match_root:
  "unpositioned_match issue d = Inr True \<Longrightarrow> root_note d = Inr (hd (disc_notes d))"
  by (simp add: unpositioned_match_def root_note_def split: list.splits)

subsection \<open>An issue with no discussion\<close>

lemma process_issue_unmatched:
  assumes "\<forall>d\<in>set (review_discussions s). positioned_match issue d = Inr False"
    and "\<forall>d\<in>set (review_discussions s). unpositioned_match issue d = Inr False"
  shows "snd (process_issue cfg lib w m dm issue s) = Inr ()"
    and "review_discussions (fst (process_issue cfg lib w m dm issue s)) = review_discussions s"
    and "claimed (fst (process_issue cfg lib w m dm issue s)) = claimed s"
    and "calls_of (trace (fst (process_issue cfg lib w m dm issue s)))
          = calls_of (trace s)
            @ (if ignoredOnServer (m (mergeKey issue)) then []
               else if \<not> newOnServer (m (mergeKey issue)) then []
               else if coverityIsInDiff lib issue dm
               then [CreateDiscussion (mainEventLineNumber issue)
                       (strippedMainEventFilePathname issue)
                       (coverityCreateReviewCommentMessage lib issue)
                       (or_empty (CI_MERGE_REQUEST_DIFF_BASE_SHA cfg))
                       (or_empty (CI_COMMIT_SHA cfg))]
               else [CreateDiscussionWithoutPosition (mainEventLineNumber issue)
                       (strippedMainEventFilePathname issue)
                       (coverityCreateIssueCommentMessage lib issue (file_link cfg lib issue))])"
  using assms
  by (simp_all add: process_issue_def Let_def bnd_def seq_def emit_def ret_def
        extract_match_none write_call_def perform_def calls_of_append calls_of_simps
        split: option.splits)

text \<open>
  Claim C7.  When no discussion of the pool matches the issue, neither by position nor
  by merge key alone, and the issue is ignored on the server, or is not ignored and not
  new, then processing the issue makes no call at all (so no create and no update call),
  leaves the pool as it is and goes on to the next issue.
\<close>

theorem unmatched_ignored_or_old_is_skipped:
  assumes "\<forall>d\<in>set (review_discussions s).
             positioned_match issue d = Inr False \<and> unpositioned_match issue d = Inr False"
    and "ignoredOnServer (m (mergeKey issue))
         \<or> (\<not> ignoredOnServer (m (mergeKey issue)) \<and> \<not> newOnServer (m (mergeKey issue)))"
  shows "snd (process_issue cfg lib w m dm issue s) = Inr ()
     \<and> calls_of (trace (fst (process_issue cfg lib w m dm issue s))) = calls_of (trace s)
     \<and> review_discussions (fst (process_issue cfg lib w m dm issue s)) = review_discussions s
     \<and> claimed (fst (process_issue cfg lib w m dm issue s)) = claimed s"
proof -
  from assms(1) have 1: "\<forall>d\<in>set (review_discussions s). positioned_match issue d = Inr False"
    and 2: "\<forall>d\<in>set (review_discussions s). unpositioned_match issue d = Inr False"
    by simp_all
  from process_issue_unmatched [OF 1 2, of cfg lib w m dm] assms(2)
  show ?thesis by auto
qed

theorem unmatched_ignored_or_old_is_skipped_witness:
  "list_all (\<lambda>d. positioned_match issue_K1 d = Inr False \<and> unpositioned_match issue_K1 d = Inr False)
     (review_discussions (sample_state [unpositioned_K2, stale_K9]))
   \<and> ignoredOnServer ([''K1'' \<mapsto> ignored_record] (mergeKey issue_K1))
   \<and> calls_of (trace (fst (process_issue sample_cfg sample_lib (sample_world [] [] (Inr Map.empty))
        [''K1'' \<mapsto> ignored_record] [(''src/a.c'', 10)] issue_K1
        (sample_state [unpositioned_K2, stale_K9])))) = []
   \<and> \<not> ignoredOnServer ([''K1'' \<mapsto> old_record] (mergeKey issue_K1))
   \<and> \<not> newOnServer ([''K1'' \<mapsto> old_record] (mergeKey issue_K1))
   \<and> calls_of (trace (fst (process_issue sample_cfg sample_lib (sample_world [] [] (Inr Map.empty))
        [''K1'' \<mapsto> old_record] [(''src/a.c'', 10)] issue_K1
        (sample_state [unpositioned_K2, stale_K9])))) = []"
proof -
  have h: "list_all (\<lambda>d. positioned_match issue_K1 d = Inr False
                          \<and> unpositioned_match issue_K1 d = Inr False)
             (review_discussions (sample_state [unpositioned_K2, stale_K9]))"
    by code_simp
  then have h': "\<forall>d\<in>set (review_discussions (sample_state [unpositioned_K2, stale_K9])).
      positioned_match issue_K1 d = Inr False \<and> unpositioned_match issue_K1 d = Inr False"
    by (simp add: list_all_iff)
  have i: "ignoredOnServer ([''K1'' \<mapsto> ignored_record] (mergeKey issue_K1))"
    by code_simp
  have o: "\<not> ignoredOnServer ([''K1'' \<mapsto> old_record] (mergeKey issue_K1))"
      "\<not> newOnServer ([''K1'' \<mapsto> old_record] (mergeKey issue_K1))"
    by code_simp+
  have t: "calls_of (trace (sample_state [unpositioned_K2, stale_K9])) = []"
    by code_simp
  from unmatched_ignored_or_old_is_skipped [OF h', of "[''K1'' \<mapsto> ignored_record]"
      sample_cfg sample_lib "sample_world [] [] (Inr Map.empty)" "[(''src/a.c'', 10)]"]
    unmatched_ignored_or_old_is_skipped [OF h', of "[''K1'' \<mapsto> old_record]"
      sample_cfg sample_lib "sample_world [] [] (Inr Map.empty)" "[(''src/a.c'', 10)]"]
    h i o t
  show ?thesis by simp
qed

subsection \<open>An issue unknown to the server\<close>

text \<open>
  Claim C6, as the code has it.  An issue whose merge key has no record in the lookup
  result is treated as not ignored and as new; with no matching discussion in the pool
  the skip branches are therefore passed over and exactly one create call is made: a
  positioned discussion when the issue is in the diff, an unpositioned one otherwise.
\<close>

theorem unknown_to_server_is_new:
  assumes "m (mergeKey issue) = None"
  shows "\<not> ignoredOnServer (m (mergeKey issue)) \<and> newOnServer (m (mergeKey issue))
     \<and> ((\<forall>d\<in>set (review_discussions s).
            positioned_match issue d = Inr False \<and> unpositioned_match issue d = Inr False)
          \<longrightarrow> calls_of (trace (fst (process_issue cfg lib w m dm issue s)))
               = calls_of (trace s)
                 @ [if coverityIsInDiff lib issue dm
                    then CreateDiscussion (mainEventLineNumber issue)
                           (strippedMainEventFilePathname issue)
                           (coverityCreateReviewCommentMessage lib issue)
                           (or_empty (CI_MERGE_REQUEST_DIFF_BASE_SHA cfg))
                           (or_empty (CI_COMMIT_SHA cfg))
                    else CreateDiscussionWithoutPosition (mainEventLineNumber issue)
                           (strippedMainEventFilePathname issue)
                           (coverityCreateIssueCommentMessage lib issue
                              (file_link cfg lib issue))])"
proof -
  from assms have st: "\<not> ignoredOnServer (m (mergeKey issue))" "newOnServer (m (mergeKey issue))"
    by (simp_all add: ignoredOnServer_def newOnServer_def)
  {
    assume "\<forall>d\<in>set (review_discussions s).
              positioned_match issue d = Inr False \<and> unpositioned_match issue d = Inr False"
    then have 1: "\<forall>d\<in>set (review_discussions s). positioned_match issue d = Inr False"
      and 2: "\<forall>d\<in>set (review_discussions s). unpositioned_match issue d = Inr False"
      by simp_all
    from process_issue_unmatched(4) [OF 1 2, of cfg lib w m dm] st
    have "calls_of (trace (fst (process_issue cfg lib w m dm issue s)))
               = calls_of (trace s)
                 @ [if coverityIsInDiff lib issue dm
                    then CreateDiscussion (mainEventLineNumber issue)
                           (strippedMainEventFilePathname issue)
                           (coverityCreateReviewCommentMessage lib issue)
                           (or_empty (CI_MERGE_REQUEST_DIFF_BASE_SHA cfg))
                           (or_empty (CI_COMMIT_SHA cfg))
                    else CreateDiscussionWithoutPosition (mainEventLineNumber issue)
                           (strippedMainEventFilePathname issue)
                           (coverityCreateIssueCommentMessage lib issue
                              (file_link cfg lib issue))]"
      by simp
  }
  with st show ?thesis by blast
qed

theorem unknown_to_server_is_new_witness:
  "[''K2'' \<mapsto> old_record] (mergeKey issue_K1) = None
   \<and> \<not> ignoredOnServer ([''K2'' \<mapsto> old_record] (mergeKey issue_K1))
   \<and> newOnServer ([''K2'' \<mapsto> old_record] (mergeKey issue_K1))
   \<and> list_all (\<lambda>d. positioned_match issue_K1 d = Inr False
                     \<and> unpositioned_match issue_K1 d = Inr False)
        (review_discussions (sample_state [unpositioned_K2]))
   \<and> calls_of (trace (fst (process_issue sample_cfg sample_lib
        (sample_world [] [] (Inr Map.empty)) [''K2'' \<mapsto> old_record] [(''src/a.c'', 10)]
        issue_K1 (sample_state [unpositioned_K2]))))
      = [CreateDiscussion 10 ''src/a.c'' ''<!-- Coverity K1 PRESENT -->'' ''base'' ''head'']"
proof -
  have h: "list_all (\<lambda>d. positioned_match issue_K1 d = Inr False
                          \<and> unpositioned_match issue_K1 d = Inr False)
             (review_discussions (sample_state [unpositioned_K2]))"
    by code_simp
  then have h': "\<forall>d\<in>set (review_discussions (sample_state [unpositioned_K2])).
      positioned_match issue_K1 d = Inr False \<and> unpositioned_match issue_K1 d = Inr False"
    by (simp add: list_all_iff)
  have e: "calls_of (trace (sample_state [unpositioned_K2]))
           @ [if coverityIsInDiff sample_lib issue_K1 [(''src/a.c'', 10)]
              then CreateDiscussion (mainEventLineNumber issue_K1)
                     (strippedMainEventFilePathname issue_K1)
                     (coverityCreateReviewCommentMessage sample_lib issue_K1)
                     (or_empty (CI_MERGE_REQUEST_DIFF_BASE_SHA sample_cfg))
                     (or_empty (CI_COMMIT_SHA sample_cfg))
              else CreateDiscussionWithoutPosition (mainEventLineNumber issue_K1)
                     (strippedMainEventFilePathname issue_K1)
                     (coverityCreateIssueCommentMessage sample_lib issue_K1
                        (file_link sample_cfg sample_lib issue_K1))]
           = [CreateDiscussion 10 ''src/a.c'' ''<!-- Coverity K1 PRESENT -->'' ''base'' ''head'']"
    by code_simp
  have n: "[''K2'' \<mapsto> old_record] (mergeKey issue_K1) = None"
    by code_simp
  from unknown_to_server_is_new [where m = "[''K2'' \<mapsto> old_record]" and issue = issue_K1
      and s = "sample_state [unpositioned_K2]" and cfg = sample_cfg and lib = sample_lib
      and w = "sample_world [] [] (Inr Map.empty)" and dm = "[(''src/a.c'', 10)]", OF n]
    h h' e n
  show ?thesis by simp
qed

text \<open>
  The claim as the specification words it fails: for an issue without a server record
  \<open>newOnServer\<close> is true, and with an empty pool the issue gets a comment.
\<close>

theorem unknown_to_server_counterexample:
  "\<not> (ignoredOnServer (Map.empty (mergeKey issue_K1)) = False
       \<and> newOnServer (Map.empty (mergeKey issue_K1)) = False)
   \<and> calls_of (trace (fst (process_issue sample_cfg sample_lib
        (sample_world [] [] (Inr Map.empty)) Map.empty [(''src/a.c'', 10)] issue_K1
        (sample_state []))))
      = [CreateDiscussion 10 ''src/a.c'' ''<!-- Coverity K1 PRESENT -->'' ''base'' ''head'']"
  by code_simp

subsection \<open>An issue with a positioned and another discussion\<close>

text \<open>
  Claim C4, as the code has it.  When the pool holds a positioned match for the issue
  (\<open>d\<close>, the first one) and, besides it, a discussion whose body contains the merge key
  (\<open>c\<close>, the first one in the pool without \<open>d\<close>), then both are spliced out of the
  pool; \<open>d\<close> is the one chosen for the update (made unless its body is the review
  message already), and \<open>c\<close> receives no call: it is no longer in the pool for later
  issues or for the sweep.
\<close>

theorem positioned_match_consumes_both:
  assumes pool: "review_discussions s = xs @ d # ys"
    and before_d: "\<forall>x\<in>set xs. positioned_match issue x = Inr False"
    and at_d: "positioned_match issue d = Inr True"
    and rest: "xs @ ys = us @ c # vs"
    and before_c: "\<forall>u\<in>set us. unpositioned_match issue u = Inr False"
    and at_c: "unpositioned_match issue c = Inr True"
  shows "snd (process_issue cfg lib w m dm issue s) = Inr ()
     \<and> review_discussions (fst (process_issue cfg lib w m dm issue s)) = us @ vs
     \<and> claimed (fst (process_issue cfg lib w m dm issue s)) = claimed s @ [(issue, d), (issue, c)]
     \<and> calls_of (trace (fst (process_issue cfg lib w m dm issue s)))
         = calls_of (trace s)
           @ (if body (hd (disc_notes d)) \<noteq> coverityCreateReviewCommentMessage lib issue
              then [UpdateNote (parseInt10 (disc_id d)) (note_id (hd (disc_notes d)))
                      (coverityCreateReviewCommentMessage lib issue)]
              else [])"
proof -
  have e1: "extract_match issue (positioned_match issue) (s\<lparr>trace := T\<rparr>)
            = (s\<lparr>trace := T, review_discussions := xs @ ys,
                 claimed := claimed s @ [(issue, d)]\<rparr>, Inr (Some d))" for T
    using extract_match_found [of "s\<lparr>trace := T\<rparr>" xs d ys "positioned_match issue" issue]
      pool before_d at_d by simp
  have e2: "extract_match issue (unpositioned_match issue)
              (s\<lparr>trace := T, review_discussions := xs @ ys, claimed := C\<rparr>)
            = (s\<lparr>trace := T, review_discussions := us @ vs, claimed := C @ [(issue, c)]\<rparr>,
               Inr (Some c))" for T C
    using extract_match_found
      [of "s\<lparr>trace := T, review_discussions := xs @ ys, claimed := C\<rparr>" us c vs
          "unpositioned_match issue" issue]
      rest before_c at_c by simp
  note root = positioned_match_root [OF at_d]
  show ?thesis
    by (simp add: process_issue_def Let_def bnd_def seq_def emit_def ret_def lift_def
          e1 e2 root write_call_def perform_def calls_of_append calls_of_simps
          split: option.splits)
qed

theorem positioned_match_consumes_both_witness:
  "review_discussions (sample_state [stale_K9, positioned_K1, unpositioned_K2, unpositioned_K1])
      = [stale_K9] @ positioned_K1 # [unpositioned_K2, unpositioned_K1]
   \<and> list_all (\<lambda>x. positioned_match issue_K1 x = Inr False) [stale_K9]
   \<and> positioned_match issue_K1 positioned_K1 = Inr True
   \<and> [stale_K9] @ [unpositioned_K2, unpositioned_K1]
        = [stale_K9, unpositioned_K2] @ unpositioned_K1 # []
   \<and> list_all (\<lambda>u. unpositioned_match issue_K1 u = Inr False) [stale_K9, unpositioned_K2]
   \<and> unpositioned_match issue_K1 unpositioned_K1 = Inr True
   \<and> review_discussions (fst (process_issue sample_cfg sample_lib
        (sample_world [] [] (Inr Map.empty)) Map.empty [] issue_K1
        (sample_state [stale_K9, positioned_K1, unpositioned_K2, unpositioned_K1])))
      = [stale_K9, unpositioned_K2]
   \<and> calls_of (trace (fst (process_issue sample_cfg sample_lib
        (sample_world [] [] (Inr Map.empty)) Map.empty [] issue_K1
        (sample_state [stale_K9, positioned_K1, unpositioned_K2, unpositioned_K1]))))
      = [UpdateNote (Some 3) 11 ''<!-- Coverity K1 PRESENT -->'']"
proof -
  have p: "review_discussions
             (sample_state [stale_K9, positioned_K1, unpositioned_K2, unpositioned_K1])
           = [stale_K9] @ positioned_K1 # [unpositioned_K2, unpositioned_K1]"
    by (simp add: sample_state_def)
  have b1: "list_all (\<lambda>x. positioned_match issue_K1 x = Inr False) [stale_K9]"
    by code_simp
  have a1: "positioned_match issue_K1 positioned_K1 = Inr True"
    by code_simp
  have r: "[stale_K9] @ [unpositioned_K2, unpositioned_K1]
           = [stale_K9, unpositioned_K2] @ unpositioned_K1 # []"
    by simp
  have b2: "list_all (\<lambda>u. unpositioned_match issue_K1 u = Inr False) [stale_K9, unpositioned_K2]"
    by code_simp
  have a2: "unpositioned_match issue_K1 unpositioned_K1 = Inr True"
    by code_simp
  have t: "calls_of (trace (sample_state
              [stale_K9, positioned_K1, unpositioned_K2, unpositioned_K1]))
           @ (if body (hd (disc_notes positioned_K1))
                   \<noteq> coverityCreateReviewCommentMessage sample_lib issue_K1
              then [UpdateNote (parseInt10 (disc_id positioned_K1))
                      (note_id (hd (disc_notes positioned_K1)))
                      (coverityCreateReviewCommentMessage sample_lib issue_K1)]
              else [])
           = [UpdateNote (Some 3) 11 ''<!-- Coverity K1 PRESENT -->'']"
    by code_simp
  from b1 have b1': "\<forall>x\<in>set [stale_K9]. positioned_match issue_K1 x = Inr False"
    by (simp add: list_all_iff)
  from b2 have b2': "\<forall>u\<in>set [stale_K9, unpositioned_K2]. unpositioned_match issue_K1 u = Inr False"
    by (simp only: list_all_iff)
  from positioned_match_consumes_both [where cfg = sample_cfg and lib = sample_lib
      and w = "sample_world [] [] (Inr Map.empty)" and m = Map.empty and dm = "[]",
      OF p b1' a1 r b2' a2] p b1 a1 r b2 a2 t
  show ?thesis by simp
qed

text \<open>
  The claim as the specification words it fails: after the issue \<open>K1\<close> is processed
  on a pool with its positioned and its unpositioned discussion, the unpositioned one is
  not in the pool; in the whole run it is neither updated nor swept.
\<close>

theorem unpositioned_left_in_pool_counterexample:
  "positioned_match issue_K1 positioned_K1 = Inr True
   \<and> position (hd (disc_notes unpositioned_K1)) = None
   \<and> unpositioned_match issue_K1 unpositioned_K1 = Inr True
   \<and> unpositioned_K1 \<notin> set (review_discussions (fst (process_issue sample_cfg sample_lib
        (sample_world [] [] (Inr Map.empty)) Map.empty [] issue_K1
        (sample_state [positioned_K1, unpositioned_K1]))))
   \<and> coverityIsPresent sample_lib (body (hd (disc_notes unpositioned_K1)))
   \<and> calls_of (trace (fst (main sample_cfg sample_lib
        (sample_world [issue_K1] [positioned_K1, unpositioned_K1] (Inr Map.empty)))))
      = [GetProject, ReadFile ''results.json'', MapMatchingMergeKeys [''K1''], GetDiscussions,
         GetDiffMap, UpdateNote (Some 3) 11 ''<!-- Coverity K1 PRESENT -->'']"
  by code_simp

subsection \<open>The state of an issue on the server\<close>

text \<open>
  Claim C3 at a record with the classification \<open>False Positive\<close> (and at one with
  \<open>Intentional\<close>) whose action is not \<open>Ignore\<close>: the classification is one of the two
  the test names, yet \<open>ignoredOnServer\<close> is false, because \<^verbatim>\<open>in\<close> tests the property
  names of the array, not its elements; the issue, unmatched and new, gets a comment.
\<close>

theorem false_positive_not_ignored:
  "action false_positive_record \<noteq> ''Ignore''
   \<and> classification false_positive_record \<in> set [''False Positive'', ''Intentional'']
   \<and> \<not> ignoredOnServer (Some false_positive_record)
   \<and> classification intentional_record \<in> set [''False Positive'', ''Intentional'']
   \<and> \<not> ignoredOnServer (Some intentional_record)
   \<and> newOnServer (Some false_positive_record)
        = (firstSnapshotId false_positive_record = lastSnapshotId false_positive_record)
   \<and> calls_of (trace (fst (process_issue sample_cfg sample_lib
        (sample_world [] [] (Inr Map.empty)) [''K1'' \<mapsto> false_positive_record] [] issue_K1
        (sample_state []))))
      = [CreateDiscussionWithoutPosition 10 ''src/a.c''
           ''<!-- Coverity K1 PRESENT --> see https://gitlab.example/group/demo/-/blob/feature/src/a.c#L10'']"
  by code_simp

subsection \<open>Updating a matched discussion\<close>

text \<open>
  Claim C5 on the unpositioned discussion of \<open>K1\<close>.  A first run finds it with an
  outdated body and writes the review message into it.  A second run, on the discussion
  with the body the first run wrote and with everything else unchanged, compares that
  body with the issue-comment message and therefore updates again, writing the body that
  is already there.  Conversely a body equal to the issue-comment message is left alone
  although it differs from the review message an update would write.
\<close>

theorem unpositioned_update_repeats:
  "calls_of (trace (fst (main sample_cfg sample_lib
        (sample_world [issue_K1] [unpositioned_K1] (Inr Map.empty)))))
      = [GetProject, ReadFile ''results.json'', MapMatchingMergeKeys [''K1''], GetDiscussions,
         GetDiffMap, UpdateNote (Some 3) 12 ''<!-- Coverity K1 PRESENT -->'']
   \<and> rewritten_K1
      = unpositioned_K1\<lparr>disc_notes :=
          [(hd (disc_notes unpositioned_K1))\<lparr>body := ''<!-- Coverity K1 PRESENT -->''\<rparr>]\<rparr>
   \<and> body (hd (disc_notes rewritten_K1)) = coverityCreateReviewCommentMessage sample_lib issue_K1
   \<and> calls_of (trace (fst (main sample_cfg sample_lib
        (sample_world [issue_K1] [rewritten_K1] (Inr Map.empty)))))
      = [GetProject, ReadFile ''results.json'', MapMatchingMergeKeys [''K1''], GetDiscussions,
         GetDiffMap, UpdateNote (Some 3) 12 ''<!-- Coverity K1 PRESENT -->'']
   \<and> body (hd (disc_notes linked_K1)) \<noteq> coverityCreateReviewCommentMessage sample_lib issue_K1
   \<and> calls_of (trace (fst (main sample_cfg sample_lib
        (sample_world [issue_K1] [linked_K1] (Inr Map.empty)))))
      = [GetProject, ReadFile ''results.json'', MapMatchingMergeKeys [''K1''], GetDiscussions,
         GetDiffMap]"
  by code_simp

subsection \<open>The start-up checks\<close>

lemma startup_passes_continues: "startup_passes cfg \<Longrightarrow> snd (startup cfg s) = Inr ()"
  by (simp add: startup_def startup_passes_def seq_def bnd_def emit_def ret_def stop_def)

lemma startup_calls: "calls_of (trace (fst (startup cfg s))) = calls_of (trace s)"
proof -
  have "invariant (\<lambda>s'. calls_of (trace s') = C) (startup cfg)" for C
    unfolding startup_def
    by (intro invariant_seq invariant_if invariant_emit invariant_ret invariant_stop)
       (simp_all add: calls_of_append calls_of_simps)
  then show ?thesis by (simp add: invariant_def)
qed

lemma startup_pool:
  "review_discussions (fst (startup cfg s)) = review_discussions s
   \<and> claimed (fst (startup cfg s)) = claimed s"
proof -
  have "invariant (\<lambda>s'. review_discussions s' = P \<and> claimed s' = C) (startup cfg)" for P C
    unfolding startup_def
    by (intro invariant_seq invariant_if invariant_emit invariant_ret invariant_stop) simp_all
  then show ?thesis by (simp add: invariant_def)
qed

subsection \<open>A failing lookup\<close>

lemma lookup_failure_after_startup:
  assumes "canCheckCoverity cfg"
    and "gitlabGetProject w = Inr project"
    and "readFindings w (coverity_results_file cfg) = Inr issues" and "issues \<noteq> []"
    and "coverityMapMatchingMergeKeys w (js_set (map mergeKey issues)) = Inl err"
  shows "run_on_merge_request cfg lib w s
          = (s\<lparr>trace := trace s @
                 [Log Info (ConnectingToGitLab (template (CI_SERVER_URL cfg))),
                  Call GetProject None, Log Debug (ProjectName project),
                  Call (ReadFile (coverity_results_file cfg)) None,
                  Call (MapMatchingMergeKeys (js_set (map mergeKey issues))) (Some err),
                  Log Error (LookupFailed err)]\<rparr>,
             Inl (Exit 1))"
  using assms
  by (simp add: run_on_merge_request_def classify_def Let_def seq_def bnd_def emit_def
        await_def attempt_def ret_def stop_def)

text \<open>
  Claim C8.  On a merge-request run that passes the start-up checks, with complete
  Coverity credentials, a project and a readable, non-empty findings file, a failing bulk
  lookup ends the run with exit code 1 right after the failure is logged: the only calls
  of the run are the project fetch, the file read and the lookup itself, so no
  discussion is listed, matched, created or updated, and the pool stays empty.
\<close>

theorem lookup_failure_aborts:
  assumes "startup_passes cfg" and "canCheckCoverity cfg"
    and "gitlabGetProject w = Inr project"
    and "readFindings w (coverity_results_file cfg) = Inr issues" and "issues \<noteq> []"
    and "coverityMapMatchingMergeKeys w (js_set (map mergeKey issues)) = Inl err"
  shows "snd (main cfg lib w) = Exit 1
     \<and> calls_of (trace (fst (main cfg lib w)))
         = [GetProject, ReadFile (coverity_results_file cfg),
            MapMatchingMergeKeys (js_set (map mergeKey issues))]
     \<and> last (trace (fst (main cfg lib w))) = Log Error (LookupFailed err)
     \<and> review_discussions (fst (main cfg lib w)) = []
     \<and> claimed (fst (main cfg lib w)) = []"
proof -
  obtain s1 r1 where st: "startup cfg initial_state = (s1, r1)"
    by (cases "startup cfg initial_state")
  from startup_passes_continues [OF assms(1), of initial_state] st
  have r1: "r1 = Inr ()" by simp
  from startup_calls [of cfg initial_state] st
  have c1: "calls_of (trace s1) = []" by (simp add: initial_state_def calls_of_simps)
  from startup_pool [of cfg initial_state] st
  have p1: "review_discussions s1 = []" "claimed s1 = []" by (simp_all add: initial_state_def)
  note rest = lookup_failure_after_startup [OF assms(2-6), of lib s1]
  from st r1 rest c1 p1 show ?thesis
    by (simp add: main_def main_prog_def seq_def bnd_def calls_of_append calls_of_simps)
qed

theorem lookup_failure_aborts_witness:
  "startup_passes sample_cfg \<and> canCheckCoverity sample_cfg
   \<and> snd (main sample_cfg sample_lib
        (sample_world [issue_K1] [positioned_K1, stale_K9] (Inl ''connection refused''))) = Exit 1
   \<and> calls_of (trace (fst (main sample_cfg sample_lib
        (sample_world [issue_K1] [positioned_K1, stale_K9] (Inl ''connection refused'')))))
      = [GetProject, ReadFile ''results.json'', MapMatchingMergeKeys [''K1'']]"
proof -
  have 1: "startup_passes sample_cfg" by code_simp
  have 2: "canCheckCoverity sample_cfg" by code_simp
  have 3: "gitlabGetProject (sample_world [issue_K1] [positioned_K1, stale_K9]
             (Inl ''connection refused'')) = Inr ''demo''"
    by (simp add: sample_world_def)
  have 4: "readFindings (sample_world [issue_K1] [positioned_K1, stale_K9]
             (Inl ''connection refused'')) (coverity_results_file sample_cfg) = Inr [issue_K1]"
    by (simp add: sample_world_def)
  have 5: "[issue_K1] \<noteq> []" by simp
  have 6: "coverityMapMatchingMergeKeys (sample_world [issue_K1] [positioned_K1, stale_K9]
             (Inl ''connection refused'')) (js_set (map mergeKey [issue_K1]))
           = Inl ''connection refused''"
    by (simp add: sample_world_def)
  have 7: "[GetProject, ReadFile (coverity_results_file sample_cfg),
            MapMatchingMergeKeys (js_set (map mergeKey [issue_K1]))]
           = [GetProject, ReadFile ''results.json'', MapMatchingMergeKeys [''K1'']]"
    by code_simp
  from lookup_failure_aborts [OF 1 2 3 4 5 6, of sample_lib] 1 2 7
  show ?thesis by simp
qed

subsection \<open>An empty findings file\<close>

lemma bnd_await_Inr: "bnd (await c (Inr x)) F = seq (attempt c (Inr x)) (F x)"
  by (rule ext) (simp add: await_def bnd_def seq_def attempt_def ret_def)

lemma classify_nil:
  "classify cfg w [] =
     (if \<not> canCheckCoverity cfg
      then seq (emit (Log Warn MissingCoverityConnectInfo)) (ret Map.empty)
      else ret Map.empty)"
  by (simp add: classify_def)

lemma invariant_await:
  "(\<And>s res. I s \<Longrightarrow> I (s\<lparr>trace := trace s @ [Call c res]\<rparr>)) \<Longrightarrow> invariant I (await c r)"
  unfolding await_def
  by (intro invariant_bnd invariant_attempt invariant_sum invariant_stop invariant_ret)

lemma invariant_assign:
  "(\<And>s. I s \<Longrightarrow> I (s\<lparr>review_discussions := kept\<rparr>))
     \<Longrightarrow> invariant I (assign_review_discussions kept)"
  by (simp add: invariant_def assign_review_discussions_def)

lemma invariant_write_call:
  "(\<And>s res. I s \<Longrightarrow> I (s\<lparr>trace := trace s @ [Call c res]\<rparr>))
     \<Longrightarrow> (\<And>s msg. I s \<Longrightarrow> I (s\<lparr>trace := trace s @ [Log Error (h msg)]\<rparr>))
     \<Longrightarrow> invariant I (write_call w c h)"
  unfolding write_call_def
  by (intro invariant_bnd invariant_perform invariant_option invariant_ret invariant_emit)

lemma invariant_sweep:
  "(\<And>d. invariant I (sweep_discussion lib w d)) \<Longrightarrow> invariant I (sweep lib w)"
proof -
  assume "\<And>d. invariant I (sweep_discussion lib w d)"
  then have "invariant I (for_each (sweep_discussion lib w) ds)" for ds
    by (rule invariant_for_each)
  then show ?thesis by (simp add: invariant_def sweep_def)
qed

lemma no_lookup_log: "no_lookup s \<Longrightarrow> no_lookup (s\<lparr>trace := trace s @ [Log l msg]\<rparr>)"
  by (simp add: no_lookup_def calls_of_append calls_of_simps)

lemma no_lookup_help: "no_lookup s \<Longrightarrow> no_lookup (s\<lparr>trace := trace s @ [OutputHelp]\<rparr>)"
  by (simp add: no_lookup_def calls_of_append calls_of_simps)

lemma no_lookup_call:
  "\<not> is_lookup c \<Longrightarrow> no_lookup s \<Longrightarrow> no_lookup (s\<lparr>trace := trace s @ [Call c res]\<rparr>)"
  by (simp add: no_lookup_def calls_of_append calls_of_simps)

lemma no_lookup_pool: "no_lookup s \<Longrightarrow> no_lookup (s\<lparr>review_discussions := kept\<rparr>)"
  by (simp add: no_lookup_def)

lemma no_lookup_extract_match: "invariant no_lookup (extract_match issue p)"
  by (simp add: invariant_def extract_match_def no_lookup_def split: sum.splits prod.splits)

lemma no_lookup_startup: "invariant no_lookup (startup cfg)"
  unfolding startup_def
  by (intro invariant_seq invariant_if invariant_emit invariant_ret invariant_stop
        no_lookup_log no_lookup_help)

lemma no_lookup_process_issue: "invariant no_lookup (process_issue cfg lib w m dm issue)"
  unfolding process_issue_def Let_def
  by (intro invariant_seq invariant_bnd invariant_if invariant_option invariant_emit
        invariant_write_call invariant_ret invariant_lift no_lookup_extract_match
        no_lookup_log no_lookup_call) simp_all

lemma no_lookup_sweep: "invariant no_lookup (sweep lib w)"
  by (intro invariant_sweep, unfold sweep_discussion_def)
     (intro invariant_seq invariant_bnd invariant_if invariant_emit invariant_write_call
        invariant_ret invariant_lift no_lookup_log no_lookup_call, simp_all)

lemma no_lookup_run:
  assumes "readFindings w (coverity_results_file cfg) = Inr []"
  shows "invariant no_lookup (run_on_merge_request cfg lib w)"
  unfolding run_on_merge_request_def assms bnd_await_Inr classify_nil fetch_discussions_def
    process_issues_def report_def
  by (intro invariant_seq invariant_bnd invariant_if invariant_emit invariant_await
        invariant_attempt invariant_assign invariant_ret invariant_stop invariant_lift
        invariant_for_each no_lookup_process_issue no_lookup_sweep
        no_lookup_log no_lookup_call no_lookup_pool) simp_all

lemma perform_ignores_lookup: "perform (w\<lparr>coverityMapMatchingMergeKeys := f\<rparr>) c = perform w c"
  by (rule ext) (simp add: perform_def)

lemma write_call_ignores_lookup:
  "write_call (w\<lparr>coverityMapMatchingMergeKeys := f\<rparr>) c h = write_call w c h"
  by (simp add: write_call_def perform_ignores_lookup)

lemma sweep_discussion_ignores_lookup:
  "sweep_discussion lib (w\<lparr>coverityMapMatchingMergeKeys := f\<rparr>) = sweep_discussion lib w"
  by (rule ext) (simp add: sweep_discussion_def write_call_ignores_lookup cong: if_cong)

lemma sweep_ignores_lookup: "sweep lib (w\<lparr>coverityMapMatchingMergeKeys := f\<rparr>) = sweep lib w"
  by (rule ext) (simp add: sweep_def sweep_discussion_ignores_lookup)

lemma main_state: "fst (main cfg lib w) = fst (main_prog cfg lib w initial_state)"
  by (cases "main_prog cfg lib w initial_state") (simp add: main_def split: sum.splits)

lemma run_ignores_lookup:
  assumes "readFindings w (coverity_results_file cfg) = Inr []"
  shows "run_on_merge_request cfg lib (w\<lparr>coverityMapMatchingMergeKeys := f\<rparr>)
          = run_on_merge_request cfg lib w"
  using assms
  by (simp add: run_on_merge_request_def bnd_await_Inr classify_nil fetch_discussions_def
        process_issues_def sweep_ignores_lookup)

text \<open>
  Claim C10.  When the findings file holds no issue, no event of the run is a call of
  the bulk lookup, and the run is the same whatever the lookup would have answered: a
  lookup that fails cannot abort it.  This holds with complete credentials (and without).
\<close>

theorem empty_findings_skip_lookup:
  assumes "readFindings w (coverity_results_file cfg) = Inr []"
  shows "filter is_lookup (calls_of (trace (fst (main cfg lib w)))) = []
     \<and> main cfg lib (w\<lparr>coverityMapMatchingMergeKeys := f\<rparr>) = main cfg lib w"
proof -
  have "invariant no_lookup (main_prog cfg lib w)"
    unfolding main_prog_def
    by (intro invariant_seq no_lookup_startup no_lookup_run assms)
  moreover have "no_lookup initial_state"
    by (simp add: no_lookup_def initial_state_def calls_of_simps)
  ultimately have "no_lookup (fst (main_prog cfg lib w initial_state))"
    by (simp add: invariant_def)
  then have a: "filter is_lookup (calls_of (trace (fst (main cfg lib w)))) = []"
    by (simp add: main_state no_lookup_def)
  have "main_prog cfg lib (w\<lparr>coverityMapMatchingMergeKeys := f\<rparr>) = main_prog cfg lib w"
    by (simp add: main_prog_def run_ignores_lookup [OF assms])
  then have b: "main cfg lib (w\<lparr>coverityMapMatchingMergeKeys := f\<rparr>) = main cfg lib w"
    by (simp add: main_def)
  from a b show ?thesis by simp
qed

theorem empty_findings_skip_lookup_witness:
  "canCheckCoverity sample_cfg
   \<and> readFindings (sample_world [] [stale_K9] (Inl ''connection refused''))
        (coverity_results_file sample_cfg) = Inr []
   \<and> filter is_lookup (calls_of (trace (fst (main sample_cfg sample_lib
        (sample_world [] [stale_K9] (Inl ''connection refused'')))))) = []
   \<and> main sample_cfg sample_lib (sample_world [] [stale_K9] (Inr Map.empty))
      = main sample_cfg sample_lib (sample_world [] [stale_K9] (Inl ''connection refused''))
   \<and> snd (main sample_cfg sample_lib
        (sample_world [] [stale_K9] (Inl ''connection refused''))) = Exit 0"
proof -
  have 1: "canCheckCoverity sample_cfg" by code_simp
  have 2: "readFindings (sample_world [] [stale_K9] (Inl ''connection refused''))
             (coverity_results_file sample_cfg) = Inr []"
    by (simp add: sample_world_def)
  have 3: "(sample_world [] [stale_K9] (Inl ''connection refused''))
             \<lparr>coverityMapMatchingMergeKeys := \<lambda>keys. Inr Map.empty\<rparr>
           = sample_world [] [stale_K9] (Inr Map.empty)"
    by (simp add: sample_world_def)
  have 4: "snd (main sample_cfg sample_lib
             (sample_world [] [stale_K9] (Inl ''connection refused''))) = Exit 0"
    by code_simp
  from empty_findings_skip_lookup [OF 2, of sample_lib "\<lambda>keys. Inr Map.empty"] 1 2 3 4
  show ?thesis by simp
qed

subsection \<open>Runs that differ in the failures of their writing calls\<close>

lemma without_write_failures_append:
  "without_write_failures (t @ u) = without_write_failures t @ without_write_failures u"
  by (simp add: without_write_failures_def)

lemma sim_ret: "sim (ret x) (ret x)"
  by (simp add: sim_def ret_def)

lemma sim_stop: "sim (stop out) (stop out)"
  by (simp add: sim_def stop_def)

lemma sim_lift: "sim (lift r) (lift r)"
  by (simp add: sim_def lift_def)

lemma sim_bnd:
  assumes "sim m1 m2" and "\<And>x. sim (f1 x) (f2 x)"
  shows "sim (bnd m1 f1) (bnd m2 f2)"
  unfolding sim_def
proof (intro allI impI)
  fix s1 s2 assume a: "alike s1 s2"
  obtain t1 r1 where m1: "m1 s1 = (t1, r1)" by (cases "m1 s1")
  obtain t2 r2 where m2: "m2 s2 = (t2, r2)" by (cases "m2 s2")
  from assms(1) a have "alike (fst (m1 s1)) (fst (m2 s2)) \<and> snd (m1 s1) = snd (m2 s2)"
    unfolding sim_def by blast
  with m1 m2 have t: "alike t1 t2" and m1': "m1 s1 = (t1, r2)"
    by simp_all
  show "alike (fst (bnd m1 f1 s1)) (fst (bnd m2 f2 s2)) \<and> snd (bnd m1 f1 s1) = snd (bnd m2 f2 s2)"
  proof (cases r2)
    case (Inl out)
    with m1' m2 t show ?thesis by (simp add: bnd_def)
  next
    case (Inr x)
    from assms(2) [of x] t
    have "alike (fst (f1 x t1)) (fst (f2 x t2)) \<and> snd (f1 x t1) = snd (f2 x t2)"
      unfolding sim_def by blast
    with m1' m2 Inr show ?thesis by (simp add: bnd_def)
  qed
qed

lemma sim_seq: "sim m1 m2 \<Longrightarrow> sim n1 n2 \<Longrightarrow> sim (seq m1 n1) (seq m2 n2)"
  by (simp add: seq_def sim_bnd)

lemma sim_if:
  "(b \<Longrightarrow> sim m1 m2) \<Longrightarrow> (\<not> b \<Longrightarrow> sim n1 n2)
     \<Longrightarrow> sim (if b then m1 else n1) (if b then m2 else n2)"
  by simp

lemma sim_option:
  "sim m1 m2 \<Longrightarrow> (\<And>x. sim (f1 x) (f2 x))
     \<Longrightarrow> sim (case v of None \<Rightarrow> m1 | Some x \<Rightarrow> f1 x) (case v of None \<Rightarrow> m2 | Some x \<Rightarrow> f2 x)"
  by (cases v) simp_all

lemma sim_sum:
  "(\<And>e. sim (f1 e) (f2 e)) \<Longrightarrow> (\<And>x. sim (g1 x) (g2 x))
     \<Longrightarrow> sim (case v of Inl e \<Rightarrow> f1 e | Inr x \<Rightarrow> g1 x) (case v of Inl e \<Rightarrow> f2 e | Inr x \<Rightarrow> g2 x)"
  by (cases v) simp_all

lemma sim_for_each: "(\<And>x. sim (f1 x) (f2 x)) \<Longrightarrow> sim (for_each f1 xs) (for_each f2 xs)"
  by (induction xs) (simp_all add: sim_ret sim_bnd)

lemma sim_emit: "sim (emit e) (emit e)"
  by (simp add: sim_def emit_def alike_def without_write_failures_append)

lemma sim_attempt: "sim (attempt c r) (attempt c r)"
  by (simp add: sim_def attempt_def alike_def without_write_failures_append)

lemma sim_await: "sim (await c r) (await c r)"
  unfolding await_def by (intro sim_bnd sim_attempt sim_sum sim_stop sim_ret)

lemma sim_assign: "sim (assign_review_discussions kept) (assign_review_discussions kept)"
  by (simp add: sim_def assign_review_discussions_def alike_def)

lemma sim_extract_match: "sim (extract_match issue p) (extract_match issue p)"
  by (simp add: sim_def extract_match_def alike_def split: sum.splits prod.splits)

lemma sim_write_call:
  assumes "is_write c" and "\<And>msg. logged_write_failure (Log Error (h msg)) \<noteq> []"
  shows "sim (write_call w1 c h) (write_call w2 c h)"
  using assms
  by (simp add: sim_def write_call_def perform_def bnd_def ret_def emit_def alike_def
        without_write_failures_append without_write_failures_def split: option.splits)

lemma sim_sweep:
  assumes "\<And>d. sim (sweep_discussion lib w1 d) (sweep_discussion lib w2 d)"
  shows "sim (sweep lib w1) (sweep lib w2)"
proof -
  have "sim (for_each (sweep_discussion lib w1) ds) (for_each (sweep_discussion lib w2) ds)" for ds
    using assms by (rule sim_for_each)
  then show ?thesis by (simp add: sim_def sweep_def alike_def)
qed

lemma sim_sweep_discussion: "sim (sweep_discussion lib w1 d) (sweep_discussion lib w2 d)"
  unfolding sweep_discussion_def
  by (intro sim_bnd sim_seq sim_if sim_lift sim_emit sim_ret sim_write_call) simp_all

lemma sim_process_issue:
  "sim (process_issue cfg lib w1 m dm issue) (process_issue cfg lib w2 m dm issue)"
  unfolding process_issue_def Let_def
  by (intro sim_bnd sim_seq sim_if sim_option sim_lift sim_emit sim_ret sim_extract_match
        sim_write_call) simp_all

lemma sim_startup: "sim (startup cfg) (startup cfg)"
  unfolding startup_def
  by (intro sim_seq sim_if sim_emit sim_ret sim_stop)

lemma sim_classify: "sim (classify cfg w issues) (classify cfg w issues)"
  unfolding classify_def Let_def
  by (intro sim_bnd sim_seq sim_if sim_sum sim_attempt sim_emit sim_ret sim_stop)

lemma sim_fetch_discussions: "sim (fetch_discussions lib w) (fetch_discussions lib w)"
  unfolding fetch_discussions_def
  by (intro sim_bnd sim_await sim_lift sim_assign)

lemma sim_report: "sim (report issues) (report issues)"
  unfolding report_def by (intro sim_seq sim_if sim_emit sim_stop)

lemma classify_ignores_writes: "classify cfg (w\<lparr>write_result := f\<rparr>) issues = classify cfg w issues"
  by (simp add: classify_def Let_def cong: if_cong)

lemma fetch_ignores_writes: "fetch_discussions lib (w\<lparr>write_result := f\<rparr>) = fetch_discussions lib w"
  by (simp add: fetch_discussions_def)

lemma sim_main_prog: "sim (main_prog cfg lib (w\<lparr>write_result := f\<rparr>)) (main_prog cfg lib w)"
  unfolding main_prog_def run_on_merge_request_def process_issues_def
  by (simp add: classify_ignores_writes fetch_ignores_writes)
     (intro sim_seq sim_bnd sim_startup sim_emit sim_await sim_classify sim_fetch_discussions
        sim_for_each sim_process_issue sim_sweep sim_sweep_discussion sim_report)

subsection \<open>Failed writing calls are logged\<close>

lemma failures_logged_log:
  "logged_write_failure (Log l msg) = [] \<Longrightarrow> failures_logged s
     \<Longrightarrow> failures_logged (s\<lparr>trace := trace s @ [Log l msg]\<rparr>)"
  by (simp add: failures_logged_def)

lemma failures_logged_help:
  "failures_logged s \<Longrightarrow> failures_logged (s\<lparr>trace := trace s @ [OutputHelp]\<rparr>)"
  by (simp add: failures_logged_def)

lemma failures_logged_read:
  "\<not> is_write c \<Longrightarrow> failures_logged s
     \<Longrightarrow> failures_logged (s\<lparr>trace := trace s @ [Call c res]\<rparr>)"
  by (cases res) (simp_all add: failures_logged_def)

lemma failures_logged_pool:
  "failures_logged s \<Longrightarrow> failures_logged (s\<lparr>review_discussions := kept\<rparr>)"
  by (simp add: failures_logged_def)

lemma failures_logged_extract_match: "invariant failures_logged (extract_match issue p)"
  by (simp add: invariant_def extract_match_def failures_logged_def split: sum.splits prod.splits)

lemma failures_logged_write_call:
  assumes "is_write c" and "\<And>msg. logged_write_failure (Log Error (h msg)) = [msg]"
  shows "invariant failures_logged (write_call w c h)"
  using assms
  by (simp add: invariant_def write_call_def perform_def bnd_def ret_def emit_def
        failures_logged_def split: option.splits)

lemma failures_logged_startup: "invariant failures_logged (startup cfg)"
  unfolding startup_def
  by (intro invariant_seq invariant_if invariant_emit invariant_ret invariant_stop
        failures_logged_log failures_logged_help) simp_all

lemma failures_logged_process_issue:
  "invariant failures_logged (process_issue cfg lib w m dm issue)"
  unfolding process_issue_def Let_def
  by (intro invariant_seq invariant_bnd invariant_if invariant_option invariant_emit
        failures_logged_write_call invariant_ret invariant_lift failures_logged_extract_match
        failures_logged_log) simp_all

lemma failures_logged_sweep: "invariant failures_logged (sweep lib w)"
  by (intro invariant_sweep, unfold sweep_discussion_def)
     (intro invariant_seq invariant_bnd invariant_if invariant_emit failures_logged_write_call
        invariant_ret invariant_lift failures_logged_log, simp_all)

lemma failures_logged_run: "invariant failures_logged (run_on_merge_request cfg lib w)"
  unfolding run_on_merge_request_def classify_def Let_def fetch_discussions_def
    process_issues_def report_def
  by (intro invariant_seq invariant_bnd invariant_if invariant_sum invariant_emit
        invariant_await invariant_attempt invariant_assign invariant_ret invariant_stop
        invariant_lift invariant_for_each failures_logged_process_issue failures_logged_sweep
        failures_logged_log failures_logged_read failures_logged_pool) simp_all

text \<open>
  Claim C9.  Take any run and change, in any way, which of its writing calls (update or
  create) are rejected.  The run ends the same way (a rejected write never aborts it),
  leaves the same pool and the same claimed discussions, and its trace is the same once
  the results of the writing calls and the log lines of their failures are left out:
  the same issues are processed in the same way and the sweep makes the same calls.
  Moreover every rejected writing call of a run has its error log line.
\<close>

theorem write_failures_are_isolated:
  "snd (main cfg lib (w\<lparr>write_result := f\<rparr>)) = snd (main cfg lib w)
   \<and> without_write_failures (trace (fst (main cfg lib (w\<lparr>write_result := f\<rparr>))))
       = without_write_failures (trace (fst (main cfg lib w)))
   \<and> review_discussions (fst (main cfg lib (w\<lparr>write_result := f\<rparr>)))
       = review_discussions (fst (main cfg lib w))
   \<and> claimed (fst (main cfg lib (w\<lparr>write_result := f\<rparr>))) = claimed (fst (main cfg lib w))
   \<and> concat (map failed_write (trace (fst (main cfg lib w))))
       = concat (map logged_write_failure (trace (fst (main cfg lib w))))"
proof -
  let ?w' = "w\<lparr>write_result := f\<rparr>"
  obtain s1 r1 where m1: "main_prog cfg lib ?w' initial_state = (s1, r1)"
    by (cases "main_prog cfg lib ?w' initial_state")
  obtain s2 r2 where m2: "main_prog cfg lib w initial_state = (s2, r2)"
    by (cases "main_prog cfg lib w initial_state")
  have "alike initial_state initial_state" by (simp add: alike_def)
  with sim_main_prog [where cfg = cfg and lib = lib and w = w and f = f]
  have "alike (fst (main_prog cfg lib ?w' initial_state)) (fst (main_prog cfg lib w initial_state))
        \<and> snd (main_prog cfg lib ?w' initial_state) = snd (main_prog cfg lib w initial_state)"
    unfolding sim_def by blast
  with m1 m2 have a: "alike s1 s2" and r: "r1 = r2"
    by simp_all
  have "invariant failures_logged (main_prog cfg lib w)"
    unfolding main_prog_def by (intro invariant_seq failures_logged_startup failures_logged_run)
  moreover have "failures_logged initial_state"
    by (simp add: failures_logged_def initial_state_def)
  ultimately have l: "failures_logged s2" using m2 by (auto simp: invariant_def)
  from m1 m2 a r l show ?thesis
    by (simp add: main_def alike_def failures_logged_def split: sum.splits)
qed

theorem write_failures_are_isolated_witness:
  "snd (main sample_cfg sample_lib
        ((sample_world [issue_K1, issue_K2] [positioned_K1, stale_K9] (Inr Map.empty))
           \<lparr>write_result := rejects_note_11\<rparr>)) = Exit 1
   \<and> calls_of (without_write_failures (trace (fst (main sample_cfg sample_lib
        ((sample_world [issue_K1, issue_K2] [positioned_K1, stale_K9] (Inr Map.empty))
           \<lparr>write_result := rejects_note_11\<rparr>)))))
      = [GetProject, ReadFile ''results.json'', MapMatchingMergeKeys [''K1'', ''K2''],
         GetDiscussions, GetDiffMap,
         UpdateNote (Some 3) 11 ''<!-- Coverity K1 PRESENT -->'',
         CreateDiscussionWithoutPosition 20 ''src/b.c''
           ''<!-- Coverity K2 PRESENT --> see https://gitlab.example/group/demo/-/blob/feature/src/b.c#L20'',
         UpdateNote (Some 3) 14 ''<!-- Coverity resolved -->'']
   \<and> concat (map failed_write (trace (fst (main sample_cfg sample_lib
        ((sample_world [issue_K1, issue_K2] [positioned_K1, stale_K9] (Inr Map.empty))
           \<lparr>write_result := rejects_note_11\<rparr>))))) = [''502 Bad Gateway'']
   \<and> concat (map logged_write_failure (trace (fst (main sample_cfg sample_lib
        ((sample_world [issue_K1, issue_K2] [positioned_K1, stale_K9] (Inr Map.empty))
           \<lparr>write_result := rejects_note_11\<rparr>))))) = [''502 Bad Gateway'']"
proof -
  let ?w = "sample_world [issue_K1, issue_K2] [positioned_K1, stale_K9] (Inr Map.empty)"
  have ok: "snd (main sample_cfg sample_lib ?w) = Exit 1"
    by code_simp
  have calls: "calls_of (without_write_failures (trace (fst (main sample_cfg sample_lib ?w))))
      = [GetProject, ReadFile ''results.json'', MapMatchingMergeKeys [''K1'', ''K2''],
         GetDiscussions, GetDiffMap,
         UpdateNote (Some 3) 11 ''<!-- Coverity K1 PRESENT -->'',
         CreateDiscussionWithoutPosition 20 ''src/b.c''
           ''<!-- Coverity K2 PRESENT --> see https://gitlab.example/group/demo/-/blob/feature/src/b.c#L20'',
         UpdateNote (Some 3) 14 ''<!-- Coverity resolved -->'']"
    by code_simp
  have failed: "concat (map failed_write (trace (fst (main sample_cfg sample_lib
        (?w\<lparr>write_result := rejects_note_11\<rparr>))))) = [''502 Bad Gateway'']"
    by code_simp
  from write_failures_are_isolated [where cfg = sample_cfg and lib = sample_lib and w = ?w
      and f = rejects_note_11]
    write_failures_are_isolated [where cfg = sample_cfg and lib = sample_lib
      and w = "?w\<lparr>write_result := rejects_note_11\<rparr>" and f = rejects_note_11]
    ok calls failed
  show ?thesis by simp
qed

subsection \<open>The pool of a run has root notes\<close>

text \<open>
  The ownership filter reads the root note of every discussion it is given, so a pool
  it has built holds only discussions with a root note; splicing keeps that.  The
  hypotheses on root notes in the theorems above therefore hold in every run.
\<close>

lemma filter_js_rooted:
  "filter_js (has_preface lib) ds = Inr kept \<Longrightarrow> list_all (\<lambda>d. disc_notes d \<noteq> []) kept"
proof (induction ds arbitrary: kept)
  case Nil
  then show ?case by simp
next
  case (Cons d ds)
  from Cons.prems obtain b ys where b: "has_preface lib d = Inr b"
    and ys: "filter_js (has_preface lib) ds = Inr ys"
    and kept: "kept = (if b then d # ys else ys)"
    by (auto split: sum.splits)
  from b have "disc_notes d \<noteq> []"
    by (auto simp: has_preface_def root_note_def split: list.splits)
  with Cons.IH [OF ys] kept show ?case by simp
qed

lemma rooted_fetch_discussions: "invariant rooted (fetch_discussions lib w)"
  unfolding fetch_discussions_def
proof (rule invariant_bnd)
  show "invariant rooted (await GetDiscussions (gitlabGetDiscussions w))"
    by (rule invariant_await) (simp add: rooted_def)
next
  fix ds
  show "invariant rooted (bnd (lift (filter_js (has_preface lib) ds)) assign_review_discussions)"
    by (cases "filter_js (has_preface lib) ds")
       (simp_all add: invariant_def bnd_def lift_def assign_review_discussions_def rooted_def
          filter_js_rooted)
qed

lemma splice1_rest_subset: "set (snd (splice1 i xs)) \<subseteq> set xs"
proof -
  have rest: "set (take k xs @ drop (Suc k) xs) \<subseteq> set xs" for k
    by (auto dest: in_set_takeD in_set_dropD)
  show ?thesis unfolding splice1_def Let_def snd_conv by (rule rest)
qed

lemma rooted_splice1:
  "list_all P xs \<Longrightarrow> splice1 i xs = (removed, rest) \<Longrightarrow> list_all P rest"
  using splice1_rest_subset [of i xs] by (auto simp: list_all_iff)

lemma rooted_extract_match: "invariant rooted (extract_match issue p)"
  by (auto simp: invariant_def extract_match_def rooted_def split: sum.splits prod.splits
        intro: rooted_splice1)

lemma rooted_trace: "rooted s \<Longrightarrow> rooted (s\<lparr>trace := t\<rparr>)"
  by (simp add: rooted_def)

lemma rooted_process_issue: "invariant rooted (process_issue cfg lib w m dm issue)"
  unfolding process_issue_def Let_def
  by (intro invariant_seq invariant_bnd invariant_if invariant_option invariant_emit
        invariant_write_call invariant_ret invariant_lift rooted_extract_match rooted_trace)

lemma rooted_sweep: "invariant rooted (sweep lib w)"
  by (intro invariant_sweep, unfold sweep_discussion_def)
     (intro invariant_seq invariant_bnd invariant_if invariant_emit invariant_write_call
        invariant_ret invariant_lift rooted_trace)

lemma rooted_main_prog: "invariant rooted (main_prog cfg lib w)"
  unfolding main_prog_def startup_def run_on_merge_request_def classify_def Let_def
    process_issues_def report_def
  by (intro invariant_seq invariant_bnd invariant_if invariant_sum invariant_emit
        invariant_await invariant_attempt invariant_ret invariant_stop invariant_for_each
        rooted_fetch_discussions rooted_process_issue rooted_sweep rooted_trace)

lemma rooted_main: "rooted (fst (main cfg lib w))"
proof -
  have "rooted initial_state" by (simp add: rooted_def initial_state_def)
  with rooted_main_prog [of cfg lib w] show ?thesis
    by (simp add: invariant_def main_state)
qed

subsection \<open>A run sweeps after the loop over the issues\<close>

lemma bnd_assoc: "bnd (bnd m f) g = bnd m (\<lambda>x. bnd (f x) g)"
  by (rule ext) (simp add: bnd_def split: prod.splits sum.splits)

lemma ret_bnd: "bnd (ret x) f = f x"
  by (rule ext) (simp add: bnd_def ret_def)

lemma run_splits:
  "run_on_merge_request cfg lib w
     = bnd (through_issue_loop cfg lib w) (\<lambda>issues. seq (sweep lib w) (report issues))"
  by (simp add: run_on_merge_request_def through_issue_loop_def seq_def bnd_assoc ret_bnd)

lemma main_prog_splits:
  "main_prog cfg lib w
     = bnd (seq (startup cfg) (through_issue_loop cfg lib w))
         (\<lambda>issues. seq (sweep lib w) (report issues))"
  by (simp add: main_prog_def run_splits seq_def bnd_assoc)

text \<open>A run that ends before the loop is over ends there, with the state it has.\<close>

lemma main_ends_early:
  "snd (after_issue_loop cfg lib w) = Inl out
     \<Longrightarrow> main cfg lib w = (fst (after_issue_loop cfg lib w), out)"
  by (cases "after_issue_loop cfg lib w")
     (simp add: main_def main_prog_splits after_issue_loop_def bnd_def)

lemma proceeds_ret: "Q x \<Longrightarrow> proceeds (ret x) Q"
  by (simp add: proceeds_def ret_def)

lemma proceeds_bnd:
  assumes "proceeds m Q" and "\<And>x. Q x \<Longrightarrow> proceeds (f x) R"
  shows "proceeds (bnd m f) R"
  unfolding proceeds_def
proof (intro allI impI)
  fix s assume "rooted s"
  with assms(1) obtain s1 x where m: "m s = (s1, Inr x)" and r1: "rooted s1" and q: "Q x"
    unfolding proceeds_def by blast
  from assms(2) [OF q] r1 obtain s2 y where f: "f x s1 = (s2, Inr y)" and r2: "rooted s2"
    and r: "R y"
    unfolding proceeds_def by blast
  from m f r2 r show "\<exists>s' y. bnd m f s = (s', Inr y) \<and> rooted s' \<and> R y"
    by (simp add: bnd_def)
qed

lemma proceeds_seq: "proceeds m Q \<Longrightarrow> proceeds n R \<Longrightarrow> proceeds (seq m n) R"
  unfolding seq_def by (rule proceeds_bnd)

lemma proceeds_emit: "proceeds (emit e) (\<lambda>u. True)"
  by (simp add: proceeds_def emit_def rooted_def)

lemma proceeds_write_call: "proceeds (write_call w c h) (\<lambda>u. True)"
  by (simp add: proceeds_def write_call_def perform_def bnd_def ret_def emit_def rooted_def
        split: option.splits)

lemma proceeds_await: "r = Inr x \<Longrightarrow> proceeds (await c r) (\<lambda>y. y = x)"
  by (simp add: proceeds_def await_def attempt_def bnd_def ret_def rooted_def)

lemma proceeds_for_each:
  "(\<And>x. proceeds (f x) (\<lambda>u. True)) \<Longrightarrow> proceeds (for_each f xs) (\<lambda>u. True)"
  by (induction xs) (auto intro: proceeds_ret proceeds_bnd)

lemma proceeds_startup: "startup_passes cfg \<Longrightarrow> proceeds (startup cfg) (\<lambda>u. True)"
  unfolding proceeds_def
proof (intro allI impI)
  fix s assume p: "startup_passes cfg" and r: "rooted s"
  obtain s' x where st: "startup cfg s = (s', x)" by (cases "startup cfg s")
  from startup_passes_continues [OF p, of s] st have "x = Inr ()" by simp
  moreover from startup_pool [of cfg s] st r have "rooted s'" by (simp add: rooted_def)
  ultimately show "\<exists>s' x. startup cfg s = (s', Inr x) \<and> rooted s' \<and> True"
    using st by simp
qed

lemma proceeds_classify:
  assumes "canCheckCoverity cfg \<and> issues \<noteq> []
            \<longrightarrow> coverityMapMatchingMergeKeys w (js_set (map mergeKey issues)) = Inr found"
  shows "proceeds (classify cfg w issues) (\<lambda>u. True)"
  using assms
  by (auto simp: proceeds_def classify_def Let_def seq_def bnd_def emit_def ret_def
        attempt_def rooted_def)

lemma filter_js_total:
  "\<forall>d\<in>set ds. disc_notes d \<noteq> [] \<Longrightarrow> \<exists>kept. filter_js (has_preface lib) ds = Inr kept"
proof (induction ds)
  case Nil
  show ?case by simp
next
  case (Cons d ds)
  then obtain kept where "filter_js (has_preface lib) ds = Inr kept" by auto
  moreover from Cons.prems obtain b where "has_preface lib d = Inr b"
    by (cases "disc_notes d") (auto simp: has_preface_def root_note_def)
  ultimately show ?case by simp
qed

lemma proceeds_fetch_discussions:
  assumes "gitlabGetDiscussions w = Inr ds" and "\<forall>d\<in>set ds. disc_notes d \<noteq> []"
  shows "proceeds (fetch_discussions lib w) (\<lambda>u. True)"
proof -
  from filter_js_total [OF assms(2), of lib] obtain kept
    where k: "filter_js (has_preface lib) ds = Inr kept" by blast
  from filter_js_rooted [OF k] assms(1) k show ?thesis
    by (simp add: proceeds_def fetch_discussions_def await_def attempt_def bnd_def ret_def
          lift_def assign_review_discussions_def rooted_def)
qed

lemma findIndex_total:
  "(\<And>x. x \<in> set xs \<Longrightarrow> \<exists>b. p x = Inr b) \<Longrightarrow> \<exists>i. findIndex p xs = Inr i"
proof (induction xs)
  case Nil
  show ?case by simp
next
  case (Cons x xs)
  from Cons.prems [of x] obtain b where b: "p x = Inr b" by auto
  from Cons.IH Cons.prems obtain i where i: "findIndex p xs = Inr i" by auto
  from b i show ?case by (cases b) simp_all
qed

lemma first_removed_splice1:
  assumes "first_removed (fst (splice1 i xs)) = Some d"
  shows "d \<in> set xs"
proof -
  have "d \<in> set xs" if "take (Suc 0) (drop k xs) = d # ys" for k ys
  proof -
    from that have "d \<in> set (take (Suc 0) (drop k xs))" by simp
    then show ?thesis by (blast dest: in_set_takeD in_set_dropD)
  qed
  with assms show ?thesis
    by (auto simp: first_removed_def splice1_def Let_def split: list.splits)
qed

lemma proceeds_extract_match:
  assumes "\<And>d. disc_notes d \<noteq> [] \<Longrightarrow> \<exists>b. p d = Inr b"
  shows "proceeds (extract_match issue p) (\<lambda>r. \<forall>d. r = Some d \<longrightarrow> disc_notes d \<noteq> [])"
  unfolding proceeds_def
proof (intro allI impI)
  fix s assume r: "rooted s"
  then have all: "\<And>d. d \<in> set (review_discussions s) \<Longrightarrow> disc_notes d \<noteq> []"
    by (simp add: rooted_def list_all_iff)
  with assms have "\<And>d. d \<in> set (review_discussions s) \<Longrightarrow> \<exists>b. p d = Inr b" by blast
  from findIndex_total [of "review_discussions s" p, OF this] obtain i
    where i: "findIndex p (review_discussions s) = Inr i" by blast
  obtain removed rest where sp: "splice1 i (review_discussions s) = (removed, rest)"
    by (cases "splice1 i (review_discussions s)")
  from r sp have rest: "list_all (\<lambda>d. disc_notes d \<noteq> []) rest"
    unfolding rooted_def by (rule rooted_splice1)
  have removed: "\<And>d. first_removed removed = Some d \<Longrightarrow> disc_notes d \<noteq> []"
    using first_removed_splice1 [of i "review_discussions s"] sp all by simp
  show "\<exists>s' x. extract_match issue p s = (s', Inr x) \<and> rooted s'
          \<and> (\<forall>d. x = Some d \<longrightarrow> disc_notes d \<noteq> [])"
  proof (cases "i = - 1")
    case True
    with i r show ?thesis by (simp add: extract_match_def)
  next
    case False
    with i sp rest removed show ?thesis by (simp add: extract_match_def rooted_def)
  qed
qed

lemma proceeds_root_note:
  "disc_notes d \<noteq> [] \<Longrightarrow> proceeds (lift (root_note d)) (\<lambda>n. True)"
  by (simp add: proceeds_def lift_def root_note_def split: list.splits)

lemma match_total:
  "disc_notes d \<noteq> [] \<Longrightarrow> \<exists>b. positioned_match issue d = Inr b"
  "disc_notes d \<noteq> [] \<Longrightarrow> \<exists>b. unpositioned_match issue d = Inr b"
  by (simp_all add: positioned_match_def unpositioned_match_def root_note_def split: list.splits)

lemma proceeds_extract_positioned:
  "proceeds (extract_match issue (positioned_match issue))
     (\<lambda>r. \<forall>d. r = Some d \<longrightarrow> disc_notes d \<noteq> [])"
  by (rule proceeds_extract_match) (rule match_total)

lemma proceeds_extract_unpositioned:
  "proceeds (extract_match issue (unpositioned_match issue))
     (\<lambda>r. \<forall>d. r = Some d \<longrightarrow> disc_notes d \<noteq> [])"
  by (rule proceeds_extract_match) (rule match_total)

lemma proceeds_matched:
  assumes "disc_notes d \<noteq> []"
  shows "proceeds (bnd (lift (root_note d)) (\<lambda>n.
            seq (emit (Log Info (AlreadyReported (disc_id d) (note_id n))))
                (if body n \<noteq> expected
                 then write_call w (UpdateNote (parseInt10 (disc_id d)) (note_id n) written)
                        UnableToUpdateDiscussion
                 else ret ()))) (\<lambda>u. True)"
proof (rule proceeds_bnd [OF proceeds_root_note [OF assms]])
  fix n
  show "proceeds (seq (emit (Log Info (AlreadyReported (disc_id d) (note_id n))))
                (if body n \<noteq> expected
                 then write_call w (UpdateNote (parseInt10 (disc_id d)) (note_id n) written)
                        UnableToUpdateDiscussion
                 else ret ())) (\<lambda>u. True)"
    by (cases "body n \<noteq> expected")
       (auto intro: proceeds_seq proceeds_emit proceeds_write_call proceeds_ret)
qed

lemma proceeds_unmatched:
  "proceeds
     (if ignored then emit (Log Info IgnoredOnServerNoComment)
      else if \<not> new then emit (Log Info AlreadyExistedOnServerNoComment)
      else if in_diff
      then seq (emit (Log Info AddingReviewComment)) (write_call w c1 UnableToCreateDiscussion)
      else seq (emit (Log Info AddingIssueComment)) (write_call w c2 UnableToCreateDiscussion))
     (\<lambda>u. True)"
  by (auto intro: proceeds_seq proceeds_emit proceeds_write_call)

lemma proceeds_process_issue: "proceeds (process_issue cfg lib w m dm issue) (\<lambda>u. True)"
  unfolding process_issue_def Let_def
proof (rule proceeds_seq [OF proceeds_emit], rule proceeds_seq)
  show "proceeds (if m (mergeKey issue) \<noteq> None
          then emit (Log Info (IssueStateOnServer (ignoredOnServer (m (mergeKey issue)))
                                 (newOnServer (m (mergeKey issue)))))
          else ret ()) (\<lambda>u. True)"
    by (auto intro: proceeds_emit proceeds_ret)
next
  show "proceeds
     (bnd (extract_match issue (positioned_match issue)) (\<lambda>existing_discussion.
      bnd (extract_match issue (unpositioned_match issue)) (\<lambda>existing_comment.
        case existing_discussion of
          Some d \<Rightarrow>
            bnd (lift (root_note d)) (\<lambda>n.
            seq (emit (Log Info (AlreadyReported (disc_id d) (note_id n))))
                (if body n \<noteq> coverityCreateReviewCommentMessage lib issue
                 then write_call w (UpdateNote (parseInt10 (disc_id d)) (note_id n)
                                      (coverityCreateReviewCommentMessage lib issue))
                        UnableToUpdateDiscussion
                 else ret ()))
        | None \<Rightarrow>
            (case existing_comment of
               Some c \<Rightarrow>
                 bnd (lift (root_note c)) (\<lambda>n.
                 seq (emit (Log Info (AlreadyReported (disc_id c) (note_id n))))
                     (if body n \<noteq> coverityCreateIssueCommentMessage lib issue
                                       (file_link cfg lib issue)
                      then write_call w (UpdateNote (parseInt10 (disc_id c)) (note_id n)
                                           (coverityCreateReviewCommentMessage lib issue))
                             UnableToUpdateDiscussion
                      else ret ()))
             | None \<Rightarrow>
                 if ignoredOnServer (m (mergeKey issue))
                 then emit (Log Info IgnoredOnServerNoComment)
                 else if \<not> newOnServer (m (mergeKey issue))
                 then emit (Log Info AlreadyExistedOnServerNoComment)
                 else if coverityIsInDiff lib issue dm
                 then seq (emit (Log Info AddingReviewComment))
                          (write_call w
                             (CreateDiscussion (mainEventLineNumber issue)
                                (strippedMainEventFilePathname issue)
                                (coverityCreateReviewCommentMessage lib issue)
                                (or_empty (CI_MERGE_REQUEST_DIFF_BASE_SHA cfg))
                                (or_empty (CI_COMMIT_SHA cfg)))
                             UnableToCreateDiscussion)
                 else seq (emit (Log Info AddingIssueComment))
                          (write_call w
                             (CreateDiscussionWithoutPosition (mainEventLineNumber issue)
                                (strippedMainEventFilePathname issue)
                                (coverityCreateIssueCommentMessage lib issue
                                   (file_link cfg lib issue)))
                             UnableToCreateDiscussion)))))
     (\<lambda>u. True)"
  proof (rule proceeds_bnd [OF proceeds_extract_positioned],
         rule proceeds_bnd [OF proceeds_extract_unpositioned])
    fix ed ec :: "discussion option"
    assume ed: "\<forall>d. ed = Some d \<longrightarrow> disc_notes d \<noteq> []"
      and ec: "\<forall>d. ec = Some d \<longrightarrow> disc_notes d \<noteq> []"
    show "proceeds
       (case ed of
          Some d \<Rightarrow>
            bnd (lift (root_note d)) (\<lambda>n.
            seq (emit (Log Info (AlreadyReported (disc_id d) (note_id n))))
                (if body n \<noteq> coverityCreateReviewCommentMessage lib issue
                 then write_call w (UpdateNote (parseInt10 (disc_id d)) (note_id n)
                                      (coverityCreateReviewCommentMessage lib issue))
                        UnableToUpdateDiscussion
                 else ret ()))
        | None \<Rightarrow>
            (case ec of
               Some c \<Rightarrow>
                 bnd (lift (root_note c)) (\<lambda>n.
                 seq (emit (Log Info (AlreadyReported (disc_id c) (note_id n))))
                     (if body n \<noteq> coverityCreateIssueCommentMessage lib issue
                                       (file_link cfg lib issue)
                      then write_call w (UpdateNote (parseInt10 (disc_id c)) (note_id n)
                                           (coverityCreateReviewCommentMessage lib issue))
                             UnableToUpdateDiscussion
                      else ret ()))
             | None \<Rightarrow>
                 if ignoredOnServer (m (mergeKey issue))
                 then emit (Log Info IgnoredOnServerNoComment)
                 else if \<not> newOnServer (m (mergeKey issue))
                 then emit (Log Info AlreadyExistedOnServerNoComment)
                 else if coverityIsInDiff lib issue dm
                 then seq (emit (Log Info AddingReviewComment))
                          (write_call w
                             (CreateDiscussion (mainEventLineNumber issue)
                                (strippedMainEventFilePathname issue)
                                (coverityCreateReviewCommentMessage lib issue)
                                (or_empty (CI_MERGE_REQUEST_DIFF_BASE_SHA cfg))
                                (or_empty (CI_COMMIT_SHA cfg)))
                             UnableToCreateDiscussion)
                 else seq (emit (Log Info AddingIssueComment))
                          (write_call w
                             (CreateDiscussionWithoutPosition (mainEventLineNumber issue)
                                (strippedMainEventFilePathname issue)
                                (coverityCreateIssueCommentMessage lib issue
                                   (file_link cfg lib issue)))
                             UnableToCreateDiscussion)))
       (\<lambda>u. True)"
    proof (cases ed)
      case (Some d)
      with ed have "disc_notes d \<noteq> []" by simp
      from proceeds_matched [OF this] Some show ?thesis by simp
    next
      case None
      show ?thesis
      proof (cases ec)
        case (Some c)
        with ec have "disc_notes c \<noteq> []" by simp
        from proceeds_matched [OF this] Some None show ?thesis by simp
      next
        case n: None
        show ?thesis unfolding None n option.case by (rule proceeds_unmatched)
      qed
    qed
  qed
qed

lemma proceeds_process_issues:
  "proceeds (process_issues cfg lib w m dm issues) (\<lambda>u. True)"
  unfolding process_issues_def by (rule proceeds_for_each) (rule proceeds_process_issue)

text \<open>
  When the start-up checks pass, the reading calls answer (the lookup, if it is
  called) and every listed discussion has a root note, the run gets through the loop
  over the issues.
\<close>

lemma reaches_sweep:
  assumes "startup_passes cfg"
    and "gitlabGetProject w = Inr project"
    and "readFindings w (coverity_results_file cfg) = Inr issues"
    and "canCheckCoverity cfg \<and> issues \<noteq> []
          \<longrightarrow> coverityMapMatchingMergeKeys w (js_set (map mergeKey issues)) = Inr found"
    and "gitlabGetDiscussions w = Inr discussions"
    and "\<forall>d\<in>set discussions. disc_notes d \<noteq> []"
    and "gitlabGetDiffMap w = Inr diff_map"
  shows "\<exists>s. after_issue_loop cfg lib w = (s, Inr issues) \<and> rooted s"
proof -
  have "proceeds (through_issue_loop cfg lib w) (\<lambda>r. r = issues)"
    unfolding through_issue_loop_def
  proof (rule proceeds_seq [OF proceeds_emit],
         rule proceeds_bnd [OF proceeds_await [OF assms(2)]],
         rule proceeds_seq [OF proceeds_emit],
         rule proceeds_bnd [OF proceeds_await [OF assms(3)]])
    fix found_issues :: "issue list"
    assume eq: "found_issues = issues"
    show "proceeds
        (bnd (classify cfg w found_issues) (\<lambda>mergeKeyToIssue.
         seq (fetch_discussions lib w)
         (bnd (await GetDiffMap (gitlabGetDiffMap w)) (\<lambda>diff_map.
          seq (process_issues cfg lib w mergeKeyToIssue diff_map found_issues)
              (ret found_issues)))))
        (\<lambda>r. r = issues)"
      unfolding eq
      by (intro proceeds_bnd [OF proceeds_classify [OF assms(4)]]
            proceeds_seq [OF proceeds_fetch_discussions [OF assms(5,6)]]
            proceeds_bnd [OF proceeds_await [OF assms(7)]]
            proceeds_seq [OF proceeds_process_issues] proceeds_ret) simp_all
  qed
  with proceeds_startup [OF assms(1)]
  have "proceeds (seq (startup cfg) (through_issue_loop cfg lib w)) (\<lambda>r. r = issues)"
    by (rule proceeds_seq)
  moreover have "rooted initial_state" by (simp add: rooted_def initial_state_def)
  ultimately show ?thesis
    unfolding proceeds_def after_issue_loop_def by blast
qed

text \<open>After the loop the run sweeps the pool the loop has left, reports and exits.\<close>

lemma sweep_follows_loop:
  assumes "after_issue_loop cfg lib w = (s, Inr issues)" and "rooted s"
  shows "\<exists>ev. main cfg lib w
            = (s\<lparr>trace := trace s @ ev @ [Log Info (FoundIssues (length issues))]\<rparr>,
               Exit (if issues = [] then 0 else 1))
          \<and> calls_of ev
              = map (\<lambda>d. UpdateNote (parseInt10 (disc_id d)) (note_id (hd (disc_notes d)))
                           (coverityCreateNoLongerPresentMessage lib (body (hd (disc_notes d)))))
                  (filter (\<lambda>d. coverityIsPresent lib (body (hd (disc_notes d))))
                     (review_discussions s))"
proof -
  from assms(2) have "\<forall>d\<in>set (review_discussions s). disc_notes d \<noteq> []"
    by (simp add: rooted_def list_all_iff)
  from sweep_events [OF this, of lib w] obtain ev
    where sw: "sweep lib w s = (s\<lparr>trace := trace s @ ev\<rparr>, Inr ())"
      and calls: "calls_of ev
              = map (\<lambda>d. UpdateNote (parseInt10 (disc_id d)) (note_id (hd (disc_notes d)))
                           (coverityCreateNoLongerPresentMessage lib (body (hd (disc_notes d)))))
                  (filter (\<lambda>d. coverityIsPresent lib (body (hd (disc_notes d))))
                     (review_discussions s))"
    by blast
  from assms(1) sw
  have "main cfg lib w
            = (s\<lparr>trace := trace s @ ev @ [Log Info (FoundIssues (length issues))]\<rparr>,
               Exit (if issues = [] then 0 else 1))"
    by (simp add: main_def main_prog_splits after_issue_loop_def bnd_def seq_def report_def
          emit_def stop_def)
  with calls show ?thesis by blast
qed

text \<open>
  Claim C2.  Take a run whose start-up checks pass, whose reading calls answer (the
  lookup, if it is called) and whose listed discussions all have a root note.  The run
  gets through the loop over the issues, and what it does from there to its exit is the
  sweep and the report: the events after the loop are those of the sweep followed by the
  log line of the report, the pool is the one the loop has left, and the calls among the
  sweep's events are, in pool order, exactly one update call for every discussion left
  in the pool whose root-note body passes the presence check, writing the
  no-longer-present message made from that body, and no call for the other discussions
  left; this holds whether or not update calls are rejected.
\<close>

theorem run_resolves_stale:
  assumes "startup_passes cfg"
    and "gitlabGetProject w = Inr project"
    and "readFindings w (coverity_results_file cfg) = Inr issues"
    and "canCheckCoverity cfg \<and> issues \<noteq> []
          \<longrightarrow> coverityMapMatchingMergeKeys w (js_set (map mergeKey issues)) = Inr found"
    and "gitlabGetDiscussions w = Inr discussions"
    and "\<forall>d\<in>set discussions. disc_notes d \<noteq> []"
    and "gitlabGetDiffMap w = Inr diff_map"
  shows "snd (after_issue_loop cfg lib w) = Inr issues
     \<and> snd (main cfg lib w) = Exit (if issues = [] then 0 else 1)
     \<and> review_discussions (fst (main cfg lib w))
         = review_discussions (fst (after_issue_loop cfg lib w))
     \<and> (\<exists>ev. trace (fst (main cfg lib w))
                = trace (fst (after_issue_loop cfg lib w)) @ ev
                  @ [Log Info (FoundIssues (length issues))]
              \<and> calls_of ev
                  = map (\<lambda>d. UpdateNote (parseInt10 (disc_id d)) (note_id (hd (disc_notes d)))
                               (coverityCreateNoLongerPresentMessage lib
                                  (body (hd (disc_notes d)))))
                      (filter (\<lambda>d. coverityIsPresent lib (body (hd (disc_notes d))))
                         (review_discussions (fst (after_issue_loop cfg lib w)))))
     \<and> calls_of (trace (fst (main cfg lib w)))
         = calls_of (trace (fst (after_issue_loop cfg lib w)))
           @ map (\<lambda>d. UpdateNote (parseInt10 (disc_id d)) (note_id (hd (disc_notes d)))
                        (coverityCreateNoLongerPresentMessage lib (body (hd (disc_notes d)))))
               (filter (\<lambda>d. coverityIsPresent lib (body (hd (disc_notes d))))
                  (review_discussions (fst (after_issue_loop cfg lib w))))"
proof -
  from reaches_sweep [OF assms, of lib] obtain s
    where loop: "after_issue_loop cfg lib w = (s, Inr issues)" and r: "rooted s"
    by blast
  from sweep_follows_loop [OF loop r] obtain ev
    where run: "main cfg lib w
            = (s\<lparr>trace := trace s @ ev @ [Log Info (FoundIssues (length issues))]\<rparr>,
               Exit (if issues = [] then 0 else 1))"
      and calls: "calls_of ev
              = map (\<lambda>d. UpdateNote (parseInt10 (disc_id d)) (note_id (hd (disc_notes d)))
                           (coverityCreateNoLongerPresentMessage lib (body (hd (disc_notes d)))))
                  (filter (\<lambda>d. coverityIsPresent lib (body (hd (disc_notes d))))
                     (review_discussions s))"
    by blast
  have 1: "snd (after_issue_loop cfg lib w) = Inr issues" using loop by simp
  have 2: "snd (main cfg lib w) = Exit (if issues = [] then 0 else 1)" using run by simp
  have 3: "review_discussions (fst (main cfg lib w))
         = review_discussions (fst (after_issue_loop cfg lib w))"
    using run loop by simp
  have 4: "trace (fst (main cfg lib w))
                = trace (fst (after_issue_loop cfg lib w)) @ ev
                  @ [Log Info (FoundIssues (length issues))]
              \<and> calls_of ev
                  = map (\<lambda>d. UpdateNote (parseInt10 (disc_id d)) (note_id (hd (disc_notes d)))
                               (coverityCreateNoLongerPresentMessage lib
                                  (body (hd (disc_notes d)))))
                      (filter (\<lambda>d. coverityIsPresent lib (body (hd (disc_notes d))))
                         (review_discussions (fst (after_issue_loop cfg lib w))))"
    using run loop calls by simp
  have 5: "calls_of (trace (fst (main cfg lib w)))
         = calls_of (trace (fst (after_issue_loop cfg lib w)))
           @ map (\<lambda>d. UpdateNote (parseInt10 (disc_id d)) (note_id (hd (disc_notes d)))
                        (coverityCreateNoLongerPresentMessage lib (body (hd (disc_notes d)))))
               (filter (\<lambda>d. coverityIsPresent lib (body (hd (disc_notes d))))
                  (review_discussions (fst (after_issue_loop cfg lib w))))"
    using run loop calls by (simp add: calls_of_append calls_of_simps)
  from 1 2 3 4 5 show ?thesis by blast
qed

theorem run_resolves_stale_witness:
  "startup_passes sample_cfg
   \<and> list_all (\<lambda>d. disc_notes d \<noteq> []) [stale_K9, positioned_K1, resolved_K8]
   \<and> snd (after_issue_loop sample_cfg sample_lib
        (sample_world [issue_K1] [stale_K9, positioned_K1, resolved_K8] (Inr Map.empty)))
      = Inr [issue_K1]
   \<and> review_discussions (fst (main sample_cfg sample_lib
        (sample_world [issue_K1] [stale_K9, positioned_K1, resolved_K8] (Inr Map.empty))))
      = [stale_K9, resolved_K8]
   \<and> snd (main sample_cfg sample_lib
        (sample_world [issue_K1] [stale_K9, positioned_K1, resolved_K8] (Inr Map.empty)))
      = Exit 1
   \<and> calls_of (trace (fst (main sample_cfg sample_lib
        (sample_world [issue_K1] [stale_K9, positioned_K1, resolved_K8] (Inr Map.empty)))))
      = [GetProject, ReadFile ''results.json'', MapMatchingMergeKeys [''K1''], GetDiscussions,
         GetDiffMap, UpdateNote (Some 3) 11 ''<!-- Coverity K1 PRESENT -->'',
         UpdateNote (Some 3) 14 ''<!-- Coverity resolved -->'']
   \<and> snd (main sample_cfg sample_lib
        (sample_world [] [stale_K9, resolved_K8] (Inl ''connection refused''))) = Exit 0
   \<and> calls_of (trace (fst (main sample_cfg sample_lib
        (sample_world [] [stale_K9, resolved_K8] (Inl ''connection refused'')))))
      = [GetProject, ReadFile ''results.json'', GetDiscussions, GetDiffMap,
         UpdateNote (Some 3) 14 ''<!-- Coverity resolved -->'']"
proof -
  let ?w1 = "sample_world [issue_K1] [stale_K9, positioned_K1, resolved_K8] (Inr Map.empty)"
  let ?w0 = "sample_world [] [stale_K9, resolved_K8] (Inl ''connection refused'')"
  have p: "startup_passes sample_cfg" by code_simp
  have n1: "list_all (\<lambda>d. disc_notes d \<noteq> []) [stale_K9, positioned_K1, resolved_K8]"
    by code_simp
  then have n1': "\<forall>d\<in>set [stale_K9, positioned_K1, resolved_K8]. disc_notes d \<noteq> []"
    by (simp only: list_all_iff)
  have n0: "list_all (\<lambda>d. disc_notes d \<noteq> []) [stale_K9, resolved_K8]"
    by code_simp
  then have n0': "\<forall>d\<in>set [stale_K9, resolved_K8]. disc_notes d \<noteq> []"
    by (simp only: list_all_iff)
  have l1: "canCheckCoverity sample_cfg \<and> [issue_K1] \<noteq> []
      \<longrightarrow> coverityMapMatchingMergeKeys ?w1 (js_set (map mergeKey [issue_K1])) = Inr Map.empty"
    by (simp add: sample_world_def)
  have l0: "canCheckCoverity sample_cfg \<and> ([] :: issue list) \<noteq> []
      \<longrightarrow> coverityMapMatchingMergeKeys ?w0 (js_set (map mergeKey [])) = Inr Map.empty"
    by simp
  have before1: "calls_of (trace (fst (after_issue_loop sample_cfg sample_lib ?w1)))
      = [GetProject, ReadFile ''results.json'', MapMatchingMergeKeys [''K1''], GetDiscussions,
         GetDiffMap, UpdateNote (Some 3) 11 ''<!-- Coverity K1 PRESENT -->'']"
    by code_simp
  have pool1: "review_discussions (fst (after_issue_loop sample_cfg sample_lib ?w1))
      = [stale_K9, resolved_K8]"
    by code_simp
  have before0: "calls_of (trace (fst (after_issue_loop sample_cfg sample_lib ?w0)))
      = [GetProject, ReadFile ''results.json'', GetDiscussions, GetDiffMap]"
    by code_simp
  have pool0: "review_discussions (fst (after_issue_loop sample_cfg sample_lib ?w0))
      = [stale_K9, resolved_K8]"
    by code_simp
  have sweep: "map (\<lambda>d. UpdateNote (parseInt10 (disc_id d)) (note_id (hd (disc_notes d)))
                  (coverityCreateNoLongerPresentMessage sample_lib (body (hd (disc_notes d)))))
               (filter (\<lambda>d. coverityIsPresent sample_lib (body (hd (disc_notes d))))
                  [stale_K9, resolved_K8])
      = [UpdateNote (Some 3) 14 ''<!-- Coverity resolved -->'']"
    by code_simp
  have r1: "snd (after_issue_loop sample_cfg sample_lib ?w1) = Inr [issue_K1]
     \<and> snd (main sample_cfg sample_lib ?w1) = Exit 1
     \<and> review_discussions (fst (main sample_cfg sample_lib ?w1)) = [stale_K9, resolved_K8]
     \<and> calls_of (trace (fst (main sample_cfg sample_lib ?w1)))
         = [GetProject, ReadFile ''results.json'', MapMatchingMergeKeys [''K1''],
            GetDiscussions, GetDiffMap, UpdateNote (Some 3) 11 ''<!-- Coverity K1 PRESENT -->'',
            UpdateNote (Some 3) 14 ''<!-- Coverity resolved -->'']"
    using run_resolves_stale [where cfg = sample_cfg and lib = sample_lib and w = ?w1
        and project = "''demo''" and issues = "[issue_K1]" and found = Map.empty
        and discussions = "[stale_K9, positioned_K1, resolved_K8]"
        and diff_map = "[(''src/a.c'', 10)]", OF p _ _ l1 _ n1' _]
      before1 pool1 sweep
    by (simp add: sample_world_def)
  have r0: "snd (main sample_cfg sample_lib ?w0) = Exit 0
     \<and> calls_of (trace (fst (main sample_cfg sample_lib ?w0)))
         = [GetProject, ReadFile ''results.json'', GetDiscussions, GetDiffMap,
            UpdateNote (Some 3) 14 ''<!-- Coverity resolved -->'']"
    using run_resolves_stale [where cfg = sample_cfg and lib = sample_lib and w = ?w0
        and project = "''demo''" and issues = "[]" and found = Map.empty
        and discussions = "[stale_K9, resolved_K8]"
        and diff_map = "[(''src/a.c'', 10)]", OF p _ _ l0 _ n0' _]
      before0 pool0 sweep
    by (simp add: sample_world_def)
  from p n1 r1 r0 show ?thesis by simp
qed

end
